theory Spec2Isabelle
  imports Complex_Main "HOL-Library.Sublist" "HOL-Library.Monad_Syntax" "HOL-Library.AList"
begin

section \<open>Strings and the regular expressions of the source\<close>

text \<open>
  A Python \<open>str\<close> is modelled as a \<open>string\<close>: a list of characters, each a code point
  below 256. The character classes are those of Python's \<open>re\<close> module on \<open>str\<close> patterns
  for these code points: \<open>\d\<close> is a decimal digit, \<open>\s\<close> is Unicode white space,
  \<open>\w\<close> is an alphanumeric character or the underscore.
\<close>

definition is_digit :: "char \<Rightarrow> bool" where
  "is_digit c = (let n = (of_char c :: nat) in 48 \<le> n \<and> n \<le> 57)"

definition is_space :: "char \<Rightarrow> bool" where
  "is_space c = (let n = (of_char c :: nat) in
     (9 \<le> n \<and> n \<le> 13) \<or> (28 \<le> n \<and> n \<le> 32) \<or> n = 133 \<or> n = 160)"

definition is_word :: "char \<Rightarrow> bool" where
  "is_word c = (let n = (of_char c :: nat) in
     (48 \<le> n \<and> n \<le> 57) \<or> (65 \<le> n \<and> n \<le> 90) \<or> n = 95 \<or> (97 \<le> n \<and> n \<le> 122)
     \<or> n = 170 \<or> n = 178 \<or> n = 179 \<or> n = 181 \<or> n = 185 \<or> n = 186
     \<or> (188 \<le> n \<and> n \<le> 190) \<or> (192 \<le> n \<and> n \<le> 214) \<or> (216 \<le> n \<and> n \<le> 246)
     \<or> 248 \<le> n)"

text \<open>
  The pattern anchor \<open>$\<close> (without the MULTILINE flag) holds at the end of the text and
  just before a newline that ends the text.
\<close>

definition at_eos :: "string \<Rightarrow> bool" where
  "at_eos s = (s = [] \<or> s = [CHR 0x0A])"

text \<open>
  A pattern is modelled by its matcher at one position: given the text from that position
  on, the matcher returns the number of characters of the match that Python's backtracking
  search finds there, and the text that replaces it; \<open>None\<close> when the pattern does not
  match at that position. No pattern of the source matches the empty string.

  \<open>re_sub\<close> is \<open>re.sub\<close>: it scans from the left, replaces a match where it finds one and
  goes on after the match. \<open>re_search\<close> is \<open>re.search\<close> followed by \<open>group(1)\<close>, for a
  pattern that is one group: the text of the leftmost match.
\<close>

type_synonym matcher = "string \<Rightarrow> (nat \<times> string) option"

fun re_sub :: "matcher \<Rightarrow> string \<Rightarrow> string" where
  "re_sub m [] = []"
| "re_sub m (c # cs) =
     (case m (c # cs) of
        None \<Rightarrow> c # re_sub m cs
      | Some (k, r) \<Rightarrow> r @ re_sub m (drop (k - 1) cs))"

fun re_search :: "matcher \<Rightarrow> string \<Rightarrow> string option" where
  "re_search m [] = None"
| "re_search m (c # cs) =
     (case m (c # cs) of
        None \<Rightarrow> re_search m cs
      | Some (k, r) \<Rightarrow> Some (take k (c # cs)))"

text \<open>\<open>delete k\<close>: a match of \<open>k\<close> characters that is replaced by the empty string.\<close>

definition delete :: "nat \<Rightarrow> (nat \<times> string) option" where
  "delete k = Some (k, [])"

text \<open>
  \<open>\(\d+\)\<close>: an opening parenthesis, the longest run of digits, a closing parenthesis.
  A shorter run of digits is followed by a digit, so backtracking finds no other match.
\<close>

definition m_numbering :: matcher where
  "m_numbering s =
     (case s of
        [] \<Rightarrow> None
      | c # cs \<Rightarrow>
          (let ds = takeWhile is_digit cs; rest = dropWhile is_digit cs in
           if c = CHR ''('' \<and> ds \<noteq> [] \<and> rest \<noteq> [] \<and> hd rest = CHR '')''
           then delete (length ds + 2) else None))"

text \<open>\<open>\(\d+\)$\<close>: the same, at the end of the text.\<close>

definition m_numbering_eos :: matcher where
  "m_numbering_eos s =
     (case m_numbering s of
        None \<Rightarrow> None
      | Some (k, r) \<Rightarrow> if at_eos (drop k s) then Some (k, r) else None)"

text \<open>\<open>-edited$\<close> and \<open>_p$\<close>: a literal at the end of the text.\<close>

definition m_literal_eos :: "string \<Rightarrow> matcher" where
  "m_literal_eos lit s =
     (if prefix lit s \<and> at_eos (drop (length lit) s) then delete (length lit) else None)"

text \<open>
  \<open>(\d{4})-(\d{2})-(\d{2})\s+(\d{2})\.(\d{2})\.(\d{2})\<close>, replaced by
  \<open>\1\2\3_\4\5\6\<close>. \<open>eat_digits n\<close> reads exactly \<open>n\<close> digits, \<open>eat_char\<close> one given
  character, \<open>eat_spaces\<close> the longest non-empty run of white space (what follows it in the
  pattern is a digit, so a shorter run never helps).
\<close>

definition eat_digits :: "nat \<Rightarrow> string \<Rightarrow> (string \<times> string) option" where
  "eat_digits n s =
     (if n \<le> length s \<and> list_all is_digit (take n s) then Some (take n s, drop n s) else None)"

definition eat_char :: "char \<Rightarrow> string \<Rightarrow> string option" where
  "eat_char c s = (case s of [] \<Rightarrow> None | x # xs \<Rightarrow> if x = c then Some xs else None)"

definition eat_spaces :: "string \<Rightarrow> string option" where
  "eat_spaces s =
     (case s of [] \<Rightarrow> None | x # xs \<Rightarrow> if is_space x then Some (dropWhile is_space xs) else None)"

definition m_date_format :: matcher where
  "m_date_format s = do {
     (g1, s1) \<leftarrow> eat_digits 4 s;
     s2 \<leftarrow> eat_char CHR ''-'' s1;
     (g2, s3) \<leftarrow> eat_digits 2 s2;
     s4 \<leftarrow> eat_char CHR ''-'' s3;
     (g3, s5) \<leftarrow> eat_digits 2 s4;
     s6 \<leftarrow> eat_spaces s5;
     (g4, s7) \<leftarrow> eat_digits 2 s6;
     s8 \<leftarrow> eat_char CHR ''.'' s7;
     (g5, s9) \<leftarrow> eat_digits 2 s8;
     s10 \<leftarrow> eat_char CHR ''.'' s9;
     (g6, s11) \<leftarrow> eat_digits 2 s10;
     Some (length s - length s11, g1 @ g2 @ g3 @ ''_'' @ g4 @ g5 @ g6)
   }"

text \<open>\<open>\s+\<close>: the longest run of white space. \<open>\.\<close>: one dot.\<close>

definition m_spaces :: matcher where
  "m_spaces s = (let k = length (takeWhile is_space s) in if 0 < k then delete k else None)"

definition m_dot :: matcher where
  "m_dot s = (case s of [] \<Rightarrow> None | c # cs \<Rightarrow> if c = CHR ''.'' then delete 1 else None)"

text \<open>
  \<open>_+$\<close>: the longest run of underscores, at the end of the text. A shorter run is followed
  by an underscore, where \<open>$\<close> does not hold.
\<close>

definition m_underscores_eos :: matcher where
  "m_underscores_eos s =
     (let k = length (takeWhile (\<lambda>c. c = CHR ''_'') s) in
      if 0 < k \<and> at_eos (drop k s) then delete k else None)"

text \<open>\<open>(\d{8}_\d{6})\<close>: eight digits, an underscore, six digits.\<close>

definition m_date_token :: matcher where
  "m_date_token s = do {
     (g1, s1) \<leftarrow> eat_digits 8 s;
     s2 \<leftarrow> eat_char CHR ''_'' s1;
     (g2, s3) \<leftarrow> eat_digits 6 s2;
     Some (15, [])
   }"

text \<open>
  \<open>-\w+$\<close> and \<open>_\w+$\<close>: a separator and the longest non-empty run of word characters,
  at the end of the text (the newline that may end the text is no word character).
\<close>

definition m_sep_word_eos :: "char \<Rightarrow> matcher" where
  "m_sep_word_eos sep s =
     (case s of
        [] \<Rightarrow> None
      | c # cs \<Rightarrow>
          (let k = length (takeWhile is_word cs) in
           if c = sep \<and> 0 < k \<and> at_eos (drop k cs) then delete (k + 1) else None))"

text \<open>\<open>\(\d+\)|-\w+$|_\w+$\<close>: the alternatives are tried in this order at each position.\<close>

definition m_clean :: matcher where
  "m_clean s =
     (case m_numbering s of
        Some r \<Rightarrow> Some r
      | None \<Rightarrow>
          (case m_sep_word_eos CHR ''-'' s of
             Some r \<Rightarrow> Some r
           | None \<Rightarrow> m_sep_word_eos CHR ''_'' s))"

text \<open>Python's \<open>needle in hay\<close> on strings.\<close>

fun str_contains :: "string \<Rightarrow> string \<Rightarrow> bool" where
  "str_contains needle [] = (needle = [])"
| "str_contains needle (c # cs) = (prefix needle (c # cs) \<or> str_contains needle cs)"

section \<open>The filename normalizer (main.py, normalize_filename)\<close>

definition normalize_filename :: "string \<Rightarrow> string" where
  "normalize_filename name0 =
     (let name1 = re_sub m_numbering name0;
          name2 = re_sub (m_literal_eos ''-edited'') name1;
          name3 = re_sub (m_literal_eos ''_p'') name2;
          name4 = re_sub m_date_format name3;
          name5 = re_sub m_spaces name4;
          name6 = re_sub m_dot name5;
          name7 = re_sub m_underscores_eos name6
      in name7)"

section \<open>Paths\<close>

text \<open>
  A \<open>pathlib.Path\<close> is the list of its components; the last one is the name of the file.
  \<open>path_suffix\<close> and \<open>path_stem\<close> split the name at its last dot, when that dot is neither
  the first nor the last character of the name.
\<close>

type_synonym path = "string list"

definition path_name :: "path \<Rightarrow> string" where
  "path_name p = (if p = [] then [] else last p)"

definition path_parent :: "path \<Rightarrow> path" where
  "path_parent p = butlast p"

definition rfind_dot :: "string \<Rightarrow> nat option" where
  "rfind_dot s =
     (let k = length (takeWhile (\<lambda>c. c \<noteq> CHR ''.'') (rev s)) in
      if k = length s then None else Some (length s - 1 - k))"

definition name_suffix :: "string \<Rightarrow> string" where
  "name_suffix nm =
     (case rfind_dot nm of
        None \<Rightarrow> []
      | Some i \<Rightarrow> if 0 < i \<and> i < length nm - 1 then drop i nm else [])"

definition name_stem :: "string \<Rightarrow> string" where
  "name_stem nm =
     (case rfind_dot nm of
        None \<Rightarrow> nm
      | Some i \<Rightarrow> if 0 < i \<and> i < length nm - 1 then take i nm else nm)"

definition path_suffix :: "path \<Rightarrow> string" where
  "path_suffix p = name_suffix (path_name p)"

definition path_stem :: "path \<Rightarrow> string" where
  "path_stem p = name_stem (path_name p)"

section \<open>The sidecar matcher (main.py, find_json_for_photo)\<close>

text \<open>
  Each of the five attempts of the source is a loop over \<open>json_files\<close> that returns the
  first file passing its test; \<open>find\<close> is that loop.
\<close>

definition attempt1 :: "string \<Rightarrow> path list \<Rightarrow> path option" where
  "attempt1 base_name json_files = find (\<lambda>json_file. prefix base_name (path_stem json_file)) json_files"

definition attempt2 :: "string \<Rightarrow> path list \<Rightarrow> path option" where
  "attempt2 normalized_base json_files =
     find (\<lambda>json_file. normalize_filename (path_stem json_file) = normalized_base) json_files"

definition attempt3 :: "string \<Rightarrow> path list \<Rightarrow> path option" where
  "attempt3 normalized_base json_files =
     (let base_without_number = re_sub m_numbering_eos normalized_base in
      find (\<lambda>json_file.
              re_sub m_numbering_eos (normalize_filename (path_stem json_file)) = base_without_number)
        json_files)"

definition attempt4 :: "string \<Rightarrow> path list \<Rightarrow> path option" where
  "attempt4 normalized_base json_files =
     (case re_search m_date_token normalized_base of
        None \<Rightarrow> None
      | Some date_str \<Rightarrow>
          find (\<lambda>json_file. str_contains date_str (normalize_filename (path_stem json_file)))
            json_files)"

definition attempt5 :: "string \<Rightarrow> path list \<Rightarrow> path option" where
  "attempt5 normalized_base json_files =
     (let base_clean = re_sub m_clean normalized_base in
      find (\<lambda>json_file. re_sub m_clean (normalize_filename (path_stem json_file)) = base_clean)
        json_files)"

definition find_json_for_photo :: "path \<Rightarrow> path list \<Rightarrow> path option" where
  "find_json_for_photo photo_path json_files =
     (let base_name = path_stem photo_path;
          normalized_base = normalize_filename base_name in
      case attempt1 base_name json_files of
        Some json_file \<Rightarrow> Some json_file
      | None \<Rightarrow>
     (case attempt2 normalized_base json_files of
        Some json_file \<Rightarrow> Some json_file
      | None \<Rightarrow>
     (case attempt3 normalized_base json_files of
        Some json_file \<Rightarrow> Some json_file
      | None \<Rightarrow>
     (case attempt4 normalized_base json_files of
        Some json_file \<Rightarrow> Some json_file
      | None \<Rightarrow> attempt5 normalized_base json_files))))"

section \<open>Numbers and tag values\<close>

text \<open>
  The value of an EXIF tag, as \<open>piexif\<close> takes it: a rational (a pair of integers), a
  triple of rationals, a tuple of integers, a text or an integer.
\<close>

datatype tag_value =
    Rational int int
  | Triple "int \<times> int" "int \<times> int" "int \<times> int"
  | Ints "int list"
  | Text string
  | Number int

text \<open>
  A Python number is a rational: an \<open>int\<close> is an integer, and every finite \<open>float\<close> is a
  binary fraction (NaN and the infinities are not modelled). \<open>py_trunc\<close> is \<open>int(x)\<close> on a
  number: it truncates towards zero.
\<close>

definition py_trunc :: "rat \<Rightarrow> int" where
  "py_trunc x = (if 0 \<le> x then \<lfloor>x\<rfloor> else \<lceil>x\<rceil>)"

text \<open>
  The arithmetic of \<open>float\<close> is that of IEEE 754 binary64: the exact result is rounded to
  the nearest number with 53 significant bits (from \<open>2 ^ - 1022\<close> downwards: to the nearest
  multiple of \<open>2 ^ - 1074\<close>), a tie to the one whose last bit is even. \<open>bit_length\<close> is the
  number of bits of a positive integer, \<open>binade x\<close> the exponent \<open>e\<close> with
  \<open>2 ^ e \<le> \<bar>x\<bar> < 2 ^ (e + 1)\<close>, and \<open>to_double x\<close> the float nearest to \<open>x\<close>. A result
  that is too large for a float does not occur in the source: its operands are below 3600.
\<close>

function bit_length :: "int \<Rightarrow> int" where
  "bit_length n = (if n \<le> 0 then 0 else 1 + bit_length (n div 2))"
  by pat_completeness auto
termination
  by (relation "measure nat") auto

declare bit_length.simps [simp del]

definition pow2 :: "int \<Rightarrow> rat" where
  "pow2 e = (if 0 \<le> e then 2 ^ nat e else 1 / 2 ^ nat (- e))"

definition binade :: "rat \<Rightarrow> int" where
  "binade x =
     (let (p, q) = quotient_of \<bar>x\<bar>;
          e = bit_length p - bit_length q
      in if \<bar>x\<bar> < pow2 e then e - 1 else e)"

definition round_half_even :: "rat \<Rightarrow> int" where
  "round_half_even x =
     (let n = \<lfloor>x\<rfloor>; r = x - of_int n in
      if r < 1 / 2 then n else if 1 / 2 < r then n + 1 else if even n then n else n + 1)"

definition to_double :: "rat \<Rightarrow> rat" where
  "to_double x =
     (if x = 0 then 0
      else (let ulp = pow2 (max (binade x) (- 1022) - 52)
            in of_int (round_half_even (x / ulp)) * ulp))"

definition float_sub :: "rat \<Rightarrow> rat \<Rightarrow> rat" where
  "float_sub a b = to_double (a - b)"

definition float_mul :: "rat \<Rightarrow> rat \<Rightarrow> rat" where
  "float_mul a b = to_double (a * b)"

section \<open>Python values, exceptions and the library calls of the source\<close>

text \<open>
  An exception is a value: a function that can raise returns \<open>pyexc + 'a\<close>, \<open>Inl\<close> the
  exception. \<open>OSError\<close> stands for itself and its subclasses (a missing file, a directory
  where a file is expected, the errors of \<open>shutil\<close>, an image that cannot be identified).
\<close>

datatype pyexc = ValueError | TypeError | AttributeError | OverflowError | OSError | LibraryError

definition and_then :: "pyexc + 'a \<Rightarrow> ('a \<Rightarrow> pyexc + 'b) \<Rightarrow> pyexc + 'b" where
  "and_then r f = (case r of Inl e \<Rightarrow> Inl e | Inr x \<Rightarrow> f x)"

text \<open>
  What \<open>json.load\<close> returns. A \<open>JDict\<close> lists the items of the loaded dict, its keys
  distinct. A \<open>JFloat\<close> is a finite float (the values NaN and Infinity are not modelled).
\<close>

datatype json =
    JNull
  | JBool bool
  | JInt int
  | JFloat rat
  | JStr string
  | JList "json list"
  | JDict "(string \<times> json) list"

text \<open>The truth value of a Python object in \<open>if timestamp:\<close>.\<close>

fun truthy :: "json \<Rightarrow> bool" where
  "truthy JNull = False"
| "truthy (JBool b) = b"
| "truthy (JInt n) = (n \<noteq> 0)"
| "truthy (JFloat r) = (r \<noteq> 0)"
| "truthy (JStr s) = (s \<noteq> [])"
| "truthy (JList xs) = (xs \<noteq> [])"
| "truthy (JDict kvs) = (kvs \<noteq> [])"

text \<open>\<open>d.get(key, default)\<close>: an object that is no dict has no method \<open>get\<close>.\<close>

definition py_get :: "json \<Rightarrow> string \<Rightarrow> json \<Rightarrow> pyexc + json" where
  "py_get d key dflt =
     (case d of
        JDict kvs \<Rightarrow> Inr (case map_of kvs key of Some v \<Rightarrow> v | None \<Rightarrow> dflt)
      | _ \<Rightarrow> Inl AttributeError)"

text \<open>
  \<open>int(s)\<close> on a string: white space around it is dropped, a sign may lead, and the
  digits may be grouped by single underscores. The white space that \<open>int\<close> drops is
  narrower than \<open>\s\<close>: the characters tab to carriage return and the space, and of the
  characters from 128 on those that are white space (0x85 and 0xA0); the separators 0x1C
  to 0x1F are left in place and make the text no number. (The limit that newer
  interpreters put on the number of digits is not modelled.)
\<close>

definition is_int_space :: "char \<Rightarrow> bool" where
  "is_int_space c = (let n = (of_char c :: nat) in
     (9 \<le> n \<and> n \<le> 13) \<or> n = 32 \<or> n = 133 \<or> n = 160)"

definition digits_to_int :: "string \<Rightarrow> int" where
  "digits_to_int ds = foldl (\<lambda>acc c. 10 * acc + (of_char c - 48)) 0 ds"

fun grouped_digits :: "string \<Rightarrow> bool" where
  "grouped_digits [] = False"
| "grouped_digits [c] = is_digit c"
| "grouped_digits (c # d # cs) =
     (is_digit c \<and> (if d = CHR ''_'' then grouped_digits cs else grouped_digits (d # cs)))"

definition int_of_str :: "string \<Rightarrow> int option" where
  "int_of_str s =
     (let t = rev (dropWhile is_int_space (rev (dropWhile is_int_space s)));
          neg = (t \<noteq> [] \<and> hd t = CHR ''-'');
          body = (if t \<noteq> [] \<and> (hd t = CHR ''-'' \<or> hd t = CHR ''+'') then tl t else t)
      in if grouped_digits body
         then Some ((if neg then - 1 else 1) * digits_to_int (filter (\<lambda>c. c \<noteq> CHR ''_'') body))
         else None)"

text \<open>\<open>int(v)\<close> on a loaded JSON value.\<close>

fun py_int :: "json \<Rightarrow> pyexc + int" where
  "py_int (JStr s) = (case int_of_str s of None \<Rightarrow> Inl ValueError | Some n \<Rightarrow> Inr n)"
| "py_int (JInt n) = Inr n"
| "py_int (JBool b) = Inr (if b then 1 else 0)"
| "py_int (JFloat r) = Inr (py_trunc r)"
| "py_int JNull = Inl TypeError"
| "py_int (JList xs) = Inl TypeError"
| "py_int (JDict kvs) = Inl TypeError"

text \<open>The decimal numeral of an integer: \<open>str(n)\<close>; \<open>pad2\<close> is the format \<open>{n:02d}\<close>.\<close>

function dec_digits :: "int \<Rightarrow> string" where
  "dec_digits n =
     (if n < 10 then [char_of (48 + n)] else dec_digits (n div 10) @ [char_of (48 + n mod 10)])"
  by pat_completeness auto
termination
  by (relation "measure nat") auto

declare dec_digits.simps [simp del]

definition dec_int :: "int \<Rightarrow> string" where
  "dec_int i = (if i < 0 then CHR ''-'' # dec_digits (- i) else dec_digits i)"

definition pad2 :: "int \<Rightarrow> string" where
  "pad2 i = (let s = dec_int i in if length s < 2 then CHR ''0'' # s else s)"

text \<open>\<open>s.lower()\<close>, on the letters A to Z.\<close>

definition lower_char :: "char \<Rightarrow> char" where
  "lower_char c = (let n = (of_char c :: nat) in if 65 \<le> n \<and> n \<le> 90 then char_of (n + 32) else c)"

definition str_lower :: "string \<Rightarrow> string" where
  "str_lower s = map lower_char s"

text \<open>
  A \<open>datetime\<close> without time zone. The functions of the standard library and of the image
  libraries that the source calls are not part of the repository; they are the fields of
  an environment \<open>env\<close>:
  \<^item> \<open>now_year\<close> is \<open>datetime.now().year\<close>;
  \<^item> \<open>strptime_exif s\<close> is \<open>datetime.strptime(s, '%Y:%m:%d %H:%M:%S')\<close> and
    \<open>strptime_ymd s\<close> is \<open>datetime.strptime(s, '%Y%m%d')\<close>, \<open>None\<close> for a ValueError;
  \<^item> \<open>fromtimestamp n\<close> is \<open>datetime.fromtimestamp(n)\<close>, in the local time zone; it
    raises for an epoch outside the range of the platform;
  \<^item> \<open>py_repr v\<close> is \<open>str(v)\<close> for a float, a list or a dict;
  \<^item> \<open>piexif_insert tags content\<close> is \<open>piexif.dump\<close> of the tags followed by
    \<open>piexif.insert\<close> into a file of that content: the new content, or an exception.
\<close>

record datetime =
  year :: int
  month :: int
  day :: int
  hour :: int
  minute :: int
  second :: int

datatype exif_value = ExifText string | ExifOther

text \<open>
  What \<open>Image.open\<close> gives: the format of the image and, for an image whose class has
  the method \<open>_getexif\<close>, what the method returns: \<open>None\<close> or a dict from tag numbers
  (distinct) to values, or an exception. The class of a TIFF image has no method of that
  name (its tags are read with \<open>getexif\<close>), so the call \<open>image._getexif()\<close> raises an
  AttributeError there: \<open>call_getexif\<close> is that call.
\<close>

record image =
  format :: string
  getexif :: "pyexc + (nat \<times> exif_value) list option"

definition call_getexif :: "image \<Rightarrow> pyexc + (nat \<times> exif_value) list option" where
  "call_getexif img = (if format img = ''TIFF'' then Inl AttributeError else getexif img)"

text \<open>
  The content of a file is what its readers make of it: a JSON document, an image, or
  anything else. \<open>json.load\<close> raises a ValueError on what is no JSON document and
  \<open>Image.open\<close> an OSError on what is no image.
\<close>

datatype content = JsonText json | Picture image | Opaque nat

text \<open>The EXIF dict that the Merger builds: the GPS tags and the formatted time.\<close>

record exif_dict =
  gps :: "(string \<times> tag_value) list"
  date_time :: json

record env =
  now_year :: int
  strptime_exif :: "string \<Rightarrow> datetime option"
  strptime_ymd :: "string \<Rightarrow> datetime option"
  fromtimestamp :: "int \<Rightarrow> pyexc + datetime"
  py_repr :: "json \<Rightarrow> string"
  piexif_insert :: "exif_dict \<Rightarrow> content \<Rightarrow> pyexc + content"

definition json_load :: "content \<Rightarrow> pyexc + json" where
  "json_load c = (case c of JsonText j \<Rightarrow> Inr j | _ \<Rightarrow> Inl ValueError)"

definition image_open :: "content \<Rightarrow> pyexc + image" where
  "image_open c = (case c of Picture i \<Rightarrow> Inr i | _ \<Rightarrow> Inl OSError)"

text \<open>\<open>str(v)\<close>, as the f-string \<open>f"{timestamp}_{media.name}"\<close> formats the value.\<close>

definition py_str :: "env \<Rightarrow> json \<Rightarrow> string" where
  "py_str env v =
     (case v of
        JStr s \<Rightarrow> s
      | JInt n \<Rightarrow> dec_int n
      | JBool b \<Rightarrow> (if b then ''True'' else ''False'')
      | JNull \<Rightarrow> ''None''
      | _ \<Rightarrow> py_repr env v)"

definition in_range :: "env \<Rightarrow> datetime \<Rightarrow> bool" where
  "in_range env date = (1900 \<le> year date \<and> year date \<le> now_year env)"

section \<open>The GPS coordinate encoder (main.py, get_exif_gps_dict)\<close>

text \<open>
  \<open>float(value)\<close> on a number: a float stays as it is, an integer is rounded to the
  nearest float, and one that rounds to \<open>2 ^ 1024\<close> or more raises an OverflowError.
\<close>

definition py_float :: "rat \<Rightarrow> pyexc + rat" where
  "py_float v = (if pow2 1024 - pow2 970 \<le> \<bar>v\<bar> then Inl OverflowError else Inr (to_double v))"

text \<open>
  \<open>convert_to_degrees\<close>: the subtractions and the multiplications are those of \<open>float\<close>
  (the integers \<open>degrees\<close>, \<open>minutes\<close> and 60 are floats without rounding), and \<open>int\<close>
  truncates their results.
\<close>

definition convert_to_degrees :: "rat \<Rightarrow> pyexc + tag_value" where
  "convert_to_degrees v =
     and_then (py_float v) (\<lambda>d.
       let degrees = py_trunc d;
           minutes = py_trunc (float_mul (float_sub d (of_int degrees)) 60);
           seconds = py_trunc (float_mul (float_sub (float_mul (float_sub d (of_int degrees)) 60)
                                            (of_int minutes)) 60)
       in Inr (Triple (degrees, 1) (minutes, 1) (seconds, 1)))"

definition get_exif_gps_dict :: "rat \<Rightarrow> rat \<Rightarrow> pyexc + (string \<times> tag_value) list" where
  "get_exif_gps_dict lat lon =
     and_then (convert_to_degrees \<bar>lat\<bar>) (\<lambda>lat_deg.
     and_then (convert_to_degrees \<bar>lon\<bar>) (\<lambda>lon_deg.
       let lat_ref = (if 0 \<le> lat then ''N'' else ''S'');
           lon_ref = (if 0 \<le> lon then ''E'' else ''W'')
       in Inr
         [(''GPSLatitude'', lat_deg),
          (''GPSLatitudeRef'', Text lat_ref),
          (''GPSLongitude'', lon_deg),
          (''GPSLongitudeRef'', Text lon_ref),
          (''GPSVersionID'', Ints [2, 2, 0, 0]),
          (''GPSAltitudeRef'', Number 0),
          (''GPSAltitude'', Rational 0 1),
          (''GPSTimeStamp'', Triple (0, 1) (0, 1) (0, 1)),
          (''GPSSatellites'', Text []),
          (''GPSStatus'', Text ''A''),
          (''GPSMeasureMode'', Text ''3''),
          (''GPSDOP'', Rational 0 1),
          (''GPSSpeedRef'', Text ''K''),
          (''GPSSpeed'', Rational 0 1),
          (''GPSTrackRef'', Text ''T''),
          (''GPSTrack'', Rational 0 1),
          (''GPSImgDirectionRef'', Text ''M''),
          (''GPSImgDirection'', Rational 0 1),
          (''GPSMapDatum'', Text ''WGS-84''),
          (''GPSDestLatitudeRef'', Text ''N''),
          (''GPSDestLatitude'', Triple (0, 1) (0, 1) (0, 1)),
          (''GPSDestLongitudeRef'', Text ''E''),
          (''GPSDestLongitude'', Triple (0, 1) (0, 1) (0, 1)),
          (''GPSDestBearingRef'', Text ''M''),
          (''GPSDestBearing'', Rational 0 1),
          (''GPSDestDistanceRef'', Text ''K''),
          (''GPSDestDistance'', Rational 0 1),
          (''GPSProcessingMethod'', Text []),
          (''GPSAreaInformation'', Text []),
          (''GPSDateStamp'', Text []),
          (''GPSDifferential'', Number 0)]))"

section \<open>The file system\<close>

text \<open>
  The file system lists its entries, each path once, in the order in which a directory scan
  yields them. A path is relative to the working directory, which is the empty path and
  always a directory. File times and permissions are not modelled.
\<close>

datatype node = File content | Dir

type_synonym filesystem = "(path \<times> node) list"

definition exists :: "filesystem \<Rightarrow> path \<Rightarrow> bool" where
  "exists fs p = (p = [] \<or> map_of fs p \<noteq> None)"

definition is_dir :: "filesystem \<Rightarrow> path \<Rightarrow> bool" where
  "is_dir fs p = (p = [] \<or> map_of fs p = Some Dir)"

definition is_file :: "filesystem \<Rightarrow> path \<Rightarrow> bool" where
  "is_file fs p = (case map_of fs p of Some (File c) \<Rightarrow> p \<noteq> [] | _ \<Rightarrow> False)"

definition read_file :: "filesystem \<Rightarrow> path \<Rightarrow> pyexc + content" where
  "read_file fs p =
     (case map_of fs p of Some (File c) \<Rightarrow> if p = [] then Inl OSError else Inr c | _ \<Rightarrow> Inl OSError)"

text \<open>\<open>dir.glob("*" + ext)\<close> and \<open>dir.glob("*")\<close>: the entries of the directory, by name.\<close>

definition glob :: "filesystem \<Rightarrow> path \<Rightarrow> string \<Rightarrow> path list" where
  "glob fs dir ext =
     filter (\<lambda>p. p \<noteq> [] \<and> path_parent p = dir \<and> suffix ext (path_name p)) (map fst fs)"

text \<open>
  \<open>dir / name\<close> for a name that is one path component. The model covers no name that is
  empty, is a dot or two dots, or holds a slash or a NUL character: \<open>valid_component\<close>.
\<close>

definition joinpath :: "path \<Rightarrow> string \<Rightarrow> path" where
  "joinpath dir nm = dir @ [nm]"

definition valid_component :: "string \<Rightarrow> bool" where
  "valid_component nm =
     (nm \<noteq> [] \<and> nm \<noteq> ''.'' \<and> nm \<noteq> ''..'' \<and> list_all (\<lambda>c. c \<noteq> CHR ''/'' \<and> c \<noteq> CHR 0x00) nm)"

text \<open>
  \<open>shutil.copy(src, dst)\<close>: into the directory \<open>dst\<close> when it is one; the source is a
  file, the target is another path, no directory, and lies in a directory. An existing file
  at the target is replaced.
\<close>

definition copy_file :: "filesystem \<Rightarrow> path \<Rightarrow> path \<Rightarrow> pyexc + filesystem" where
  "copy_file fs src dst =
     and_then (read_file fs src) (\<lambda>c.
       let target = (if is_dir fs dst then joinpath dst (path_name src) else dst) in
       if target = src \<or> is_dir fs target \<or> \<not> is_dir fs (path_parent target) then Inl OSError
       else Inr (AList.update target (File c) fs))"

text \<open>\<open>os.remove(p)\<close>: the path is a file.\<close>

definition remove_file :: "filesystem \<Rightarrow> path \<Rightarrow> pyexc + filesystem" where
  "remove_file fs p = (if is_file fs p then Inr (AList.delete p fs) else Inl OSError)"

text \<open>
  \<open>shutil.move(src, dst)\<close> for a source that is a file. When \<open>dst\<close> is a directory the file
  goes into it, and an entry of that name there is an error. Otherwise \<open>os.rename\<close> puts
  the file at \<open>dst\<close>, replacing a file that is there (where \<open>os.rename\<close> refuses,
  \<open>shutil.move\<close> copies over it and unlinks the source).
\<close>

definition move_file :: "filesystem \<Rightarrow> path \<Rightarrow> path \<Rightarrow> pyexc + filesystem" where
  "move_file fs src dst =
     and_then (read_file fs src) (\<lambda>c.
       let real_dst = (if is_dir fs dst then joinpath dst (path_name src) else dst) in
       if is_dir fs dst \<and> exists fs real_dst then Inl OSError
       else if \<not> is_dir fs (path_parent real_dst) then Inl OSError
       else Inr (AList.update real_dst (File c) (AList.delete src fs)))"

text \<open>\<open>p.mkdir(exist_ok=True)\<close> and \<open>p.mkdir(parents=True, exist_ok=True)\<close>.\<close>

definition mkdir :: "filesystem \<Rightarrow> path \<Rightarrow> pyexc + filesystem" where
  "mkdir fs p =
     (if is_dir fs p then Inr fs
      else if exists fs p \<or> \<not> is_dir fs (path_parent p) then Inl OSError
      else Inr (fs @ [(p, Dir)]))"

function mkdir_parents :: "filesystem \<Rightarrow> path \<Rightarrow> pyexc + filesystem" where
  "mkdir_parents fs p =
     (if is_dir fs p then Inr fs
      else if exists fs p then Inl OSError
      else and_then (mkdir_parents fs (butlast p)) (\<lambda>fs'. Inr (fs' @ [(p, Dir)])))"
  by pat_completeness auto
termination
  by (relation "measure (\<lambda>(fs, p). length p)") (auto simp: is_dir_def)

declare mkdir_parents.simps [simp del]

text \<open>
  The state of a run: the file system and the lines printed so far. Of the printed lines
  the model keeps one event per line, without the text of an exception; the lines that
  start with \<open>Warning:\<close> are left out.
\<close>

datatype event =
    NoJsonFound string
  | SkipMissingTimestamp string
  | Processed string string
  | PeopleInPhoto string
  | ErrorProcessing string
  | ErrorReadingExif path
  | ErrorReadingJson path
  | Moved string path
  | ErrorMoving string
  | NoDateTaken string
  | OutputDirNotFound

record state =
  files :: filesystem
  printed :: "event list"

section \<open>The date resolver (arrange_photo.py)\<close>

text \<open>\<open>get_date_from_filename\<close>: the leftmost run of eight digits, read as a date.\<close>

definition m_8digits :: matcher where
  "m_8digits s = (case eat_digits 8 s of None \<Rightarrow> None | Some (g, r) \<Rightarrow> Some (8, []))"

definition get_date_from_filename :: "env \<Rightarrow> string \<Rightarrow> datetime option" where
  "get_date_from_filename env filename =
     (case re_search m_8digits filename of
        None \<Rightarrow> None
      | Some date_str \<Rightarrow>
          (case strptime_ymd env date_str of
             None \<Rightarrow> None
           | Some date \<Rightarrow> if in_range env date then Some date else None))"

text \<open>
  \<open>re.sub(r'^\d+_', '', name)\<close>: the pattern matches at the start of the name only.
  \<open>with_suffix\<close> replaces the suffix of the name; \<open>Path.with_suffix\<close> raises on an empty
  name, and \<open>Path.with_name\<close> on a new name that is empty or a dot.
\<close>

definition strip_timestamp_prefix :: "string \<Rightarrow> string" where
  "strip_timestamp_prefix nm =
     (let ds = takeWhile is_digit nm; rest = dropWhile is_digit nm in
      if ds \<noteq> [] \<and> rest \<noteq> [] \<and> hd rest = CHR ''_'' then tl rest else nm)"

definition with_suffix :: "path \<Rightarrow> string \<Rightarrow> path" where
  "with_suffix p sfx = joinpath (path_parent p) (name_stem (path_name p) @ sfx)"

definition sidecar_candidates :: "path \<Rightarrow> pyexc + path list" where
  "sidecar_candidates image_path =
     (if path_name image_path = [] then Inl ValueError
      else
        (let possible_json_extensions =
               [with_suffix image_path ''.jpg.json'',
                with_suffix image_path ''.jpeg.json'',
                with_suffix image_path ''.png.json'',
                with_suffix image_path ''.gif.json'',
                with_suffix image_path ''.mp4.json'',
                with_suffix image_path ''.bmp.json'',
                with_suffix image_path ''.json''];
             original_name = strip_timestamp_prefix (path_name image_path)
         in if original_name = [] \<or> original_name = ''.'' then Inl ValueError
            else
              (let original_path = joinpath (path_parent image_path) original_name in
               Inr (possible_json_extensions @
                    [with_suffix original_path ''.json'',
                     with_suffix original_path ''.bmp.json'']))))"

text \<open>
  One sidecar, up to the conversion of its timestamp: the date that the timestamp decodes
  to, \<open>None\<close> when the sidecar has no timestamp (or a false one), or the exception raised.
\<close>

definition decode_sidecar :: "env \<Rightarrow> filesystem \<Rightarrow> path \<Rightarrow> pyexc + datetime option" where
  "decode_sidecar env fs json_path =
     and_then (read_file fs json_path) (\<lambda>c.
     and_then (json_load c) (\<lambda>metadata.
     and_then (py_get metadata ''photoTakenTime'' (JDict [])) (\<lambda>photo_taken_time.
     and_then (py_get photo_taken_time ''timestamp'' JNull) (\<lambda>timestamp.
       if truthy timestamp
       then and_then (py_int timestamp) (\<lambda>n.
            and_then (fromtimestamp env n) (\<lambda>date. Inr (Some date)))
       else Inr None))))"

text \<open>
  The loop of \<open>get_date_from_json\<close> over the candidate paths: a sidecar whose date lies in
  the range ends it; an exception is printed and the loop goes on.
\<close>

fun scan_sidecars :: "env \<Rightarrow> filesystem \<Rightarrow> path list \<Rightarrow> datetime option \<times> event list" where
  "scan_sidecars env fs [] = (None, [])"
| "scan_sidecars env fs (json_path # rest) =
     (if exists fs json_path then
        (case decode_sidecar env fs json_path of
           Inl e \<Rightarrow>
             (case scan_sidecars env fs rest of (r, evs) \<Rightarrow> (r, ErrorReadingJson json_path # evs))
         | Inr None \<Rightarrow> scan_sidecars env fs rest
         | Inr (Some date) \<Rightarrow>
             if in_range env date then (Some date, []) else scan_sidecars env fs rest)
      else scan_sidecars env fs rest)"

definition get_date_from_json ::
  "env \<Rightarrow> filesystem \<Rightarrow> path \<Rightarrow> pyexc + (datetime option \<times> event list)" where
  "get_date_from_json env fs image_path =
     and_then (sidecar_candidates image_path) (\<lambda>candidates. Inr (scan_sidecars env fs candidates))"

text \<open>
  The first step of \<open>get_date_taken\<close>, inside its \<open>try\<close>: for an image whose format is
  JPEG or TIFF the method \<open>_getexif\<close> is called, and the date of the tag DateTimeOriginal
  (number 36867 in \<open>PIL.ExifTags.TAGS\<close>) is returned when it lies in the range.
\<close>

definition exif_date :: "env \<Rightarrow> filesystem \<Rightarrow> path \<Rightarrow> pyexc + datetime option" where
  "exif_date env fs image_path =
     and_then (read_file fs image_path) (\<lambda>c.
     and_then (image_open c) (\<lambda>img.
       if format img \<in> set [''JPEG'', ''TIFF'']
       then and_then (call_getexif img) (\<lambda>exif.
         case exif of
           None \<Rightarrow> Inr None
         | Some tags \<Rightarrow>
             (case map_of tags 36867 of
                None \<Rightarrow> Inr None
              | Some ExifOther \<Rightarrow> Inl TypeError
              | Some (ExifText s) \<Rightarrow>
                  (case strptime_exif env s of
                     None \<Rightarrow> Inl ValueError
                   | Some date \<Rightarrow> if in_range env date then Inr (Some date) else Inr None)))
       else Inr None))"

definition get_date_taken ::
  "env \<Rightarrow> filesystem \<Rightarrow> path \<Rightarrow> pyexc + (datetime option \<times> event list)" where
  "get_date_taken env fs image_path =
     (case exif_date env fs image_path of
        Inr (Some date) \<Rightarrow> Inr (Some date, [])
      | r \<Rightarrow>
          (let evs1 = (case r of Inl e \<Rightarrow> [ErrorReadingExif image_path] | Inr d \<Rightarrow> []) in
           and_then (get_date_from_json env fs image_path) (\<lambda>(json_date, evs2).
             case json_date of
               Some date \<Rightarrow> Inr (Some date, evs1 @ evs2)
             | None \<Rightarrow>
                 Inr (get_date_from_filename env (path_name image_path), evs1 @ evs2))))"

section \<open>The archiver (arrange_photo.py, create_date_folders)\<close>

definition supported_extensions :: "string list" where
  "supported_extensions =
     [''.jpg'', ''.jpeg'', ''.png'', ''.gif'', ''.bmp'', ''.tiff'', ''.webp'', ''.mp4'']"

text \<open>
  The body of the loop for one entry of the output directory. An exception of \<open>mkdir\<close> or
  of \<open>get_date_taken\<close> is not caught in the source and ends the run: the result is \<open>Inl\<close>.
  An exception of \<open>shutil.move\<close> is caught and printed.
\<close>

definition archive_file :: "env \<Rightarrow> path \<Rightarrow> state \<Rightarrow> path \<Rightarrow> pyexc + state" where
  "archive_file env output_dir st file_path =
     (if is_file (files st) file_path then
        (let sfx = str_lower (path_suffix file_path) in
         if sfx = ''.json'' \<or> sfx \<notin> set supported_extensions then Inr st
         else
           and_then (get_date_taken env (files st) file_path) (\<lambda>(date_taken, evs).
             case date_taken of
               None \<Rightarrow>
                 Inr (st\<lparr>printed := printed st @ evs @ [NoDateTaken (path_name file_path)]\<rparr>)
             | Some date \<Rightarrow>
                 (let year_folder = joinpath output_dir (dec_int (year date));
                      month_folder = joinpath year_folder (pad2 (month date))
                  in and_then (mkdir (files st) year_folder) (\<lambda>fs1.
                     and_then (mkdir fs1 month_folder) (\<lambda>fs2.
                       case move_file fs2 file_path (joinpath month_folder (path_name file_path)) of
                         Inr fs3 \<Rightarrow>
                           Inr \<lparr>files = fs3,
                                printed = printed st @ evs @ [Moved (path_name file_path) month_folder]\<rparr>
                       | Inl e \<Rightarrow>
                           Inr \<lparr>files = fs2,
                                printed = printed st @ evs @ [ErrorMoving (path_name file_path)]\<rparr>)))))
      else Inr st)"

fun archive_all :: "env \<Rightarrow> path \<Rightarrow> state \<Rightarrow> path list \<Rightarrow> pyexc + state" where
  "archive_all env output_dir st [] = Inr st"
| "archive_all env output_dir st (file_path # rest) =
     and_then (archive_file env output_dir st file_path) (\<lambda>st'. archive_all env output_dir st' rest)"

definition create_date_folders :: "env \<Rightarrow> state \<Rightarrow> pyexc + state" where
  "create_date_folders env st =
     (let output_dir = [''output''] in
      if \<not> exists (files st) output_dir
      then Inr (st\<lparr>printed := printed st @ [OutputDirNotFound]\<rparr>)
      else archive_all env output_dir st (glob (files st) output_dir []))"

section \<open>The merger (main.py, process_photos_and_json)\<close>

text \<open>
  The conversion of a true timestamp, inside its own \<open>try\<close>: a ValueError or TypeError of
  \<open>int\<close> or of \<open>datetime.fromtimestamp\<close> is caught there, any other exception leaves it.
  The time it computes is not used later in the source.
\<close>

definition convert_timestamp :: "env \<Rightarrow> json \<Rightarrow> pyexc + unit" where
  "convert_timestamp env timestamp =
     (case int_of_str (py_str env timestamp) of
        None \<Rightarrow> Inr ()
      | Some timestamp_int \<Rightarrow>
          (case fromtimestamp env timestamp_int of
             Inr photo_date \<Rightarrow> Inr ()
           | Inl e \<Rightarrow> if e = ValueError \<or> e = TypeError then Inr () else Inl e))"

text \<open>
  \<open>[person.get("name", "") for person in people]\<close>: a list yields its items, a dict its
  keys and a string its characters; any other value cannot be iterated.
\<close>

fun names_of :: "json list \<Rightarrow> pyexc + json list" where
  "names_of [] = Inr []"
| "names_of (person # rest) =
     and_then (py_get person ''name'' (JStr [])) (\<lambda>n.
     and_then (names_of rest) (\<lambda>ns. Inr (n # ns)))"

definition people_names_of :: "json \<Rightarrow> pyexc + json list" where
  "people_names_of people =
     (case people of
        JList xs \<Rightarrow> names_of xs
      | JDict kvs \<Rightarrow> names_of (map (\<lambda>kv. JStr (fst kv)) kvs)
      | JStr s \<Rightarrow> names_of (map (\<lambda>c. JStr [c]) s)
      | _ \<Rightarrow> Inl TypeError)"

text \<open>\<open>', '.join(people_names)\<close>: every item has to be a string.\<close>

fun join_names :: "json list \<Rightarrow> pyexc + string" where
  "join_names [] = Inr []"
| "join_names [JStr s] = Inr s"
| "join_names (JStr s # rest) = and_then (join_names rest) (\<lambda>t. Inr (s @ '', '' @ t))"
| "join_names (v # rest) = Inl TypeError"

text \<open>What the merger reads from the loaded sidecar before it touches a file.\<close>

record sidecar =
  timestamp :: json
  formatted_time :: json
  latitude :: json
  longitude :: json
  altitude :: json
  people_names :: "json list"

definition read_metadata :: "env \<Rightarrow> json \<Rightarrow> pyexc + sidecar" where
  "read_metadata env metadata =
     and_then (py_get metadata ''photoTakenTime'' (JDict [])) (\<lambda>photo_taken_time.
     and_then (py_get photo_taken_time ''timestamp'' JNull) (\<lambda>ts.
     and_then (py_get photo_taken_time ''formatted'' (JStr [])) (\<lambda>formatted.
     and_then (if truthy ts then convert_timestamp env ts else Inr ()) (\<lambda>u.
     and_then (py_get metadata ''geoData'' (JDict [])) (\<lambda>geo_data.
     and_then (py_get geo_data ''latitude'' (JInt 0)) (\<lambda>lat.
     and_then (py_get geo_data ''longitude'' (JInt 0)) (\<lambda>lon.
     and_then (py_get geo_data ''altitude'' (JInt 0)) (\<lambda>alt.
     and_then (py_get metadata ''people'' (JList [])) (\<lambda>people.
     and_then (people_names_of people) (\<lambda>names.
       Inr \<lparr>timestamp = ts, formatted_time = formatted, latitude = lat, longitude = lon,
            altitude = alt, people_names = names\<rparr>))))))))))"

text \<open>
  The EXIF block for a JPEG, inside its own \<open>try\<close>: every exception is caught, and the file
  then stays as it was copied. A coordinate that is no number raises in \<open>abs\<close>.
\<close>

definition json_number :: "json \<Rightarrow> rat option" where
  "json_number v =
     (case v of
        JInt n \<Rightarrow> Some (of_int n)
      | JFloat r \<Rightarrow> Some r
      | JBool b \<Rightarrow> Some (if b then 1 else 0)
      | _ \<Rightarrow> None)"

definition gps_of_json :: "json \<Rightarrow> json \<Rightarrow> pyexc + (string \<times> tag_value) list" where
  "gps_of_json lat lon =
     (case json_number lat of
        None \<Rightarrow> Inl TypeError
      | Some a \<Rightarrow>
          (case json_number lon of
             None \<Rightarrow> Inl TypeError
           | Some b \<Rightarrow> get_exif_gps_dict a b))"

definition embed_exif :: "env \<Rightarrow> filesystem \<Rightarrow> path \<Rightarrow> sidecar \<Rightarrow> filesystem" where
  "embed_exif env fs new_media_path sc =
     (case and_then (gps_of_json (latitude sc) (longitude sc)) (\<lambda>g.
           and_then (read_file fs new_media_path) (\<lambda>c.
           and_then (piexif_insert env \<lparr>gps = g, date_time = formatted_time sc\<rparr> c) (\<lambda>c'.
             Inr (AList.update new_media_path (File c') fs)))) of
        Inl e \<Rightarrow> fs
      | Inr fs' \<Rightarrow> fs')"

text \<open>
  The file operations for a pair with a true timestamp, in the order of the source. The
  result holds the exception that ended them, if any, and the file system as they left it.
\<close>

definition transfer ::
  "env \<Rightarrow> path \<Rightarrow> path \<Rightarrow> filesystem \<Rightarrow> path \<Rightarrow> path \<Rightarrow> sidecar \<Rightarrow> string \<Rightarrow> pyexc option \<times> filesystem"
  where
  "transfer env photo_dir output_dir fs media json_file sc new_name =
     (let new_media_path = joinpath output_dir new_name in
      case copy_file fs media new_media_path of
        Inl e \<Rightarrow> (Some e, fs)
      | Inr fs1 \<Rightarrow>
     (let fs2 = (if str_lower (path_suffix media) \<in> set [''.jpg'', ''.jpeg'']
                 then embed_exif env fs1 new_media_path sc else fs1) in
      case copy_file fs2 json_file (joinpath output_dir (new_name @ ''.json'')) of
        Inl e \<Rightarrow> (Some e, fs2)
      | Inr fs3 \<Rightarrow>
     (case remove_file fs3 media of
        Inl e \<Rightarrow> (Some e, fs3)
      | Inr fs4 \<Rightarrow>
          if path_parent json_file = photo_dir
          then (case remove_file fs4 json_file of
                  Inl e \<Rightarrow> (Some e, fs4)
                | Inr fs5 \<Rightarrow> (None, fs5))
          else (None, fs4))))"

text \<open>
  The body of the loop for one media file. Every exception of the body is caught by the
  outer \<open>except\<close>, which prints the error; the file system keeps what was done before.
\<close>

definition process_media :: "env \<Rightarrow> path \<Rightarrow> path \<Rightarrow> path list \<Rightarrow> state \<Rightarrow> path \<Rightarrow> state" where
  "process_media env photo_dir output_dir json_files st media =
     (let nm = path_name media in
      case find_json_for_photo media json_files of
        None \<Rightarrow> st\<lparr>printed := printed st @ [NoJsonFound nm]\<rparr>
      | Some json_file \<Rightarrow>
          if \<not> exists (files st) json_file
          then st\<lparr>printed := printed st @ [NoJsonFound nm]\<rparr>
          else
            (case and_then (and_then (read_file (files st) json_file) json_load) (read_metadata env) of
               Inl e \<Rightarrow> st\<lparr>printed := printed st @ [ErrorProcessing nm]\<rparr>
             | Inr sc \<Rightarrow>
                 if truthy (timestamp sc) then
                   (let new_name = py_str env (timestamp sc) @ ''_'' @ nm in
                    case transfer env photo_dir output_dir (files st) media json_file sc new_name of
                      (Some e, fs') \<Rightarrow>
                        \<lparr>files = fs', printed = printed st @ [ErrorProcessing nm]\<rparr>
                    | (None, fs') \<Rightarrow>
                        if people_names sc \<noteq> [] then
                          (case join_names (people_names sc) of
                             Inl e \<Rightarrow>
                               \<lparr>files = fs',
                                printed = printed st @ [Processed nm new_name, ErrorProcessing nm]\<rparr>
                           | Inr names \<Rightarrow>
                               \<lparr>files = fs',
                                printed = printed st @ [Processed nm new_name, PeopleInPhoto names]\<rparr>)
                        else \<lparr>files = fs', printed = printed st @ [Processed nm new_name]\<rparr>)
                 else st\<lparr>printed := printed st @ [SkipMissingTimestamp nm]\<rparr>))"

definition media_extensions :: "string list" where
  "media_extensions = [''.jpg'', ''.png'', ''.gif'', ''.heic'', ''.mp4'', ''.mov'', ''.bmp'']"

text \<open>
  The run: the output directory is made, the media files and the sidecars of the source
  and of the output directory are listed once, and the media files are processed in turn.
  An exception of \<open>mkdir\<close> is not caught and ends the run.
\<close>

definition process_photos_and_json :: "env \<Rightarrow> path \<Rightarrow> path \<Rightarrow> path \<Rightarrow> state \<Rightarrow> pyexc + state" where
  "process_photos_and_json env photo_dir json_dir output_dir st =
     and_then (mkdir_parents (files st) output_dir) (\<lambda>fs0.
       let media_files = concat (map (glob fs0 photo_dir) media_extensions);
           json_files = filter (exists fs0) (glob fs0 json_dir ''.json'' @ glob fs0 output_dir ''.json'')
       in Inr (foldl (process_media env photo_dir output_dir json_files)
                 (st\<lparr>files := fs0\<rparr>) media_files))"

section \<open>Example inputs\<close>

text \<open>
  An environment and file systems for the examples: the clock stands in 2025, the two date
  parsers know one text each, \<open>fromtimestamp\<close> knows three epochs (in 2001, 1850 and
  2030) and raises an OverflowError on any other, and \<open>piexif\<close> fails.
\<close>

definition example_env :: env where
  "example_env =
     \<lparr>now_year = 2025,
      strptime_exif = (\<lambda>s. if s = ''2010:06:15 12:00:00''
         then Some \<lparr>year = 2010, month = 6, day = 15, hour = 12, minute = 0, second = 0\<rparr> else None),
      strptime_ymd = (\<lambda>s. if s = ''20190314''
         then Some \<lparr>year = 2019, month = 3, day = 14, hour = 0, minute = 0, second = 0\<rparr> else None),
      fromtimestamp = (\<lambda>n.
         if n = 1000000000
         then Inr \<lparr>year = 2001, month = 9, day = 9, hour = 1, minute = 46, second = 40\<rparr>
         else if n = - 3786825600
         then Inr \<lparr>year = 1850, month = 1, day = 1, hour = 0, minute = 0, second = 0\<rparr>
         else if n = 1893456000
         then Inr \<lparr>year = 2030, month = 1, day = 1, hour = 0, minute = 0, second = 0\<rparr>
         else Inl OverflowError),
      py_repr = (\<lambda>v. []),
      piexif_insert = (\<lambda>tags c. Inl LibraryError)\<rparr>"

definition sidecar_doc :: "string \<Rightarrow> content" where
  "sidecar_doc ts = JsonText (JDict [(''photoTakenTime'', JDict [(''timestamp'', JStr ts)])])"

definition jpeg_2010 :: content where
  "jpeg_2010 = Picture \<lparr>format = ''JPEG'',
     getexif = Inr (Some [(36867, ExifText ''2010:06:15 12:00:00'')])\<rparr>"

definition png_plain :: content where
  "png_plain = Picture \<lparr>format = ''PNG'', getexif = Inr None\<rparr>"

definition fs_exif_conflict :: filesystem where
  "fs_exif_conflict =
     [([''output''], Dir),
      ([''output'', ''1000000000_photo.jpg''], File jpeg_2010),
      ([''output'', ''1000000000_photo.jpg.json''], File (sidecar_doc ''1000000000''))]"

definition tiff_2010 :: content where
  "tiff_2010 = Picture \<lparr>format = ''TIFF'',
     getexif = Inr (Some [(36867, ExifText ''2010:06:15 12:00:00'')])\<rparr>"

definition fs_tiff_conflict :: filesystem where
  "fs_tiff_conflict =
     [([''output''], Dir),
      ([''output'', ''photo.tiff''], File tiff_2010),
      ([''output'', ''photo.json''], File (sidecar_doc ''1000000000''))]"

definition fs_old_sidecar :: filesystem where
  "fs_old_sidecar =
     [([''output''], Dir),
      ([''output'', ''IMG_20190314.png''], File png_plain),
      ([''output'', ''IMG_20190314.png.json''], File (sidecar_doc ''-3786825600''))]"

definition fs_future_sidecar :: filesystem where
  "fs_future_sidecar =
     [([''output''], Dir),
      ([''output'', ''IMG_20190314.png''], File png_plain),
      ([''output'', ''IMG_20190314.png.json''], File (sidecar_doc ''1893456000''))]"

definition fs_occupied :: filesystem where
  "fs_occupied =
     [([''output''], Dir),
      ([''output'', ''IMG_20190314.png''], File png_plain),
      ([''output'', ''2019''], Dir),
      ([''output'', ''2019'', ''03''], Dir),
      ([''output'', ''2019'', ''03'', ''IMG_20190314.png''], File (Opaque 0))]"



definition plain_sidecar :: "string \<Rightarrow> sidecar" where
  "plain_sidecar ts =
     \<lparr>timestamp = JStr ts, formatted_time = JStr [], latitude = JInt 0, longitude = JInt 0,
      altitude = JInt 0, people_names = []\<rparr>"

definition fs_dest_sidecar :: filesystem where
  "fs_dest_sidecar =
     [([''Photos from 2015''], Dir),
      ([''Photos from 2015'', ''photo.jpg''], File jpeg_2010),
      ([''output''], Dir),
      ([''output'', ''photo.json''], File (sidecar_doc ''1000000000''))]"




section \<open>Properties of the normalizer and the sidecar matcher\<close>

text \<open>
  Claim C9, as stated: \<open>normalize("IMG(1)-edited.jpg")\<close> drops both the numbering token and
  the \<open>-edited\<close> token. It does not: \<open>-edited\<close> is removed only at the end of the text,
  and here the extension follows it, so the token is still in the result.
\<close>

theorem normalize_example_keeps_edited:
  "str_contains ''-edited'' (normalize_filename ''IMG(1)-edited.jpg'')"
  by code_simp

text \<open>
  Claim C9, amended: on the file name \<open>IMG(1)-edited.jpg\<close> the normalizer drops the
  numbering token \<open>(1)\<close> and the dot and keeps \<open>-edited\<close>; on the stem \<open>IMG(1)-edited\<close>,
  which is what the matcher passes to it, it drops both the numbering and the suffix.
\<close>

theorem normalize_example:
  "normalize_filename ''IMG(1)-edited.jpg'' = ''IMG-editedjpg''
   \<and> normalize_filename ''IMG(1)-edited'' = ''IMG''"
  by code_simp

text \<open>
  Claim C3, as stated: for the media stem \<open>photo(1)\<close> and the sidecar stem \<open>photo\<close> the
  rules 1 and 2 both fail. Rule 2 does not fail: the normalizer already removes \<open>(1)\<close>, so
  the two normalized stems are equal.
\<close>

theorem ladder_example_matches_at_rule2:
  "attempt2 (normalize_filename ''photo(1)'') [[''src'', ''photo.json'']]
     = Some [''src'', ''photo.json'']"
  by code_simp

text \<open>
  Claim C3, amended: the matcher returns the result of the first of its five rules, in
  their order, that finds a file, and nothing when none does; for the media stem
  \<open>photo(1)\<close> and the sidecar stem \<open>photo\<close> rule 1 (prefix) fails and the pair matches at
  rule 2 (normalized equality).
\<close>

theorem sidecar_ladder:
  "find_json_for_photo p js =
     (case filter (\<lambda>r. r \<noteq> None)
        [attempt1 (path_stem p) js,
         attempt2 (normalize_filename (path_stem p)) js,
         attempt3 (normalize_filename (path_stem p)) js,
         attempt4 (normalize_filename (path_stem p)) js,
         attempt5 (normalize_filename (path_stem p)) js] of
        [] \<Rightarrow> None
      | r # rs \<Rightarrow> r)
   \<and> attempt1 ''photo(1)'' [[''src'', ''photo.json'']] = None
   \<and> attempt2 (normalize_filename ''photo(1)'') [[''src'', ''photo.json'']]
       = Some [''src'', ''photo.json'']
   \<and> find_json_for_photo [''src'', ''photo(1).jpg''] [[''src'', ''photo.json'']]
       = Some [''src'', ''photo.json'']"
proof -
  have ladder: "find_json_for_photo p js =
     (case filter (\<lambda>r. r \<noteq> None)
        [attempt1 (path_stem p) js,
         attempt2 (normalize_filename (path_stem p)) js,
         attempt3 (normalize_filename (path_stem p)) js,
         attempt4 (normalize_filename (path_stem p)) js,
         attempt5 (normalize_filename (path_stem p)) js] of
        [] \<Rightarrow> None
      | r # rs \<Rightarrow> r)"
    by (auto simp: find_json_for_photo_def Let_def split: option.splits)
  have r1: "attempt1 ''photo(1)'' [[''src'', ''photo.json'']] = None"
    by code_simp
  have r2: "attempt2 (normalize_filename ''photo(1)'') [[''src'', ''photo.json'']]
      = Some [''src'', ''photo.json'']"
    by code_simp
  have r3: "find_json_for_photo [''src'', ''photo(1).jpg''] [[''src'', ''photo.json'']]
      = Some [''src'', ''photo.json'']"
    by code_simp
  from ladder r1 r2 r3 show ?thesis by blast
qed

section \<open>Properties of the GPS coordinate encoder\<close>

lemma py_trunc_nonneg: "0 \<le> x \<Longrightarrow> py_trunc x = \<lfloor>x\<rfloor>"
  by (simp add: py_trunc_def)

lemma pow2_pos: "0 < pow2 e"
  by (simp add: pow2_def)

lemma round_half_even_nonneg: "0 \<le> x \<Longrightarrow> 0 \<le> round_half_even x"
proof -
  assume "0 \<le> x"
  then have "0 \<le> \<lfloor>x\<rfloor>" by simp
  then show ?thesis by (simp add: round_half_even_def Let_def)
qed

lemma to_double_nonneg: "0 \<le> x \<Longrightarrow> 0 \<le> to_double x"
proof -
  assume x: "0 \<le> x"
  have "0 \<le> round_half_even (x / pow2 e)" for e
    using x pow2_pos [of e] by (intro round_half_even_nonneg) simp
  then show ?thesis
    using pow2_pos by (simp add: to_double_def Let_def less_imp_le)
qed

lemma frac_nonneg: "0 \<le> x - of_int \<lfloor>x\<rfloor>" for x :: rat
  by linarith

lemma convert_to_degrees_floor:
  assumes "0 \<le> v" and "v < pow2 1024 - pow2 970"
  shows "convert_to_degrees v =
     (let a = to_double v;
          xm = float_mul (float_sub a (of_int \<lfloor>a\<rfloor>)) 60;
          xs = float_mul (float_sub xm (of_int \<lfloor>xm\<rfloor>)) 60
      in Inr (Triple (\<lfloor>a\<rfloor>, 1) (\<lfloor>xm\<rfloor>, 1) (\<lfloor>xs\<rfloor>, 1)))"
proof -
  define a where "a = to_double v"
  define xm where "xm = float_mul (float_sub a (of_int \<lfloor>a\<rfloor>)) 60"
  define xs where "xs = float_mul (float_sub xm (of_int \<lfloor>xm\<rfloor>)) 60"
  have a0: "0 \<le> a" unfolding a_def using assms(1) by (rule to_double_nonneg)
  have ta: "py_trunc a = \<lfloor>a\<rfloor>" using a0 by (rule py_trunc_nonneg)
  have "0 \<le> float_sub a (of_int \<lfloor>a\<rfloor>)"
    unfolding float_sub_def using frac_nonneg by (rule to_double_nonneg)
  then have m0: "0 \<le> xm"
    unfolding xm_def float_mul_def by (intro to_double_nonneg) simp
  have tm: "py_trunc xm = \<lfloor>xm\<rfloor>" using m0 by (rule py_trunc_nonneg)
  have "0 \<le> float_sub xm (of_int \<lfloor>xm\<rfloor>)"
    unfolding float_sub_def using frac_nonneg by (rule to_double_nonneg)
  then have s0: "0 \<le> xs"
    unfolding xs_def float_mul_def by (intro to_double_nonneg) simp
  have tx: "py_trunc xs = \<lfloor>xs\<rfloor>" using s0 by (rule py_trunc_nonneg)
  have f: "py_float v = Inr a"
    using assms by (simp add: py_float_def a_def)
  have "convert_to_degrees v = Inr (Triple (\<lfloor>a\<rfloor>, 1) (\<lfloor>xm\<rfloor>, 1) (\<lfloor>xs\<rfloor>, 1))"
    unfolding convert_to_degrees_def f and_then_def Let_def
    using ta tm tx by (simp add: xm_def [symmetric] xs_def [symmetric])
  then show ?thesis by (simp add: Let_def a_def xm_def xs_def)
qed

lemma upper_bound: "pow2 1024 - pow2 970 = 2 ^ 970 * (2 ^ 54 - 1)"
proof -
  have "(2::rat) ^ 1024 = 2 ^ 970 * 2 ^ 54" by (simp add: power_add [symmetric])
  then show ?thesis by (simp add: pow2_def algebra_simps)
qed

lemma small_float: "\<bar>v\<bar> < 1000 \<Longrightarrow> \<bar>v\<bar> < pow2 1024 - pow2 970"
proof -
  assume v: "\<bar>v\<bar> < 1000"
  have "(1::rat) \<le> 2 ^ 970" by simp
  moreover have "(1000::rat) \<le> 2 ^ 54 - 1" by simp
  ultimately have "(1::rat) * 1000 \<le> 2 ^ 970 * (2 ^ 54 - 1)"
    by (intro mult_mono) simp_all
  then show ?thesis using v by (simp add: upper_bound)
qed

lemma to_double_zero: "to_double 0 = 0"
  by (simp add: to_double_def)

lemma double_of_3386: "to_double (- 3386 / 100) = - (2382685677855703 / 70368744177664)"
  by code_simp

lemma double_of_1512: "to_double (1512 / 10) = 2659938529915699 / 17592186044416"
  by code_simp

lemma double_of_7: "to_double (7 / 10) = 3152519739159347 / 4503599627370496"
  by code_simp

lemma dms_3386:
  "to_double (2382685677855703 / 70368744177664) = 2382685677855703 / 70368744177664"
  "\<lfloor>2382685677855703 / 70368744177664 :: rat\<rfloor> = 33"
  "float_mul (float_sub (2382685677855703 / 70368744177664) 33) 60
     = 907756799891865 / 17592186044416"
  "\<lfloor>907756799891865 / 17592186044416 :: rat\<rfloor> = 51"
  "float_mul (float_sub (907756799891865 / 17592186044416) 51) 60
     = 158329674399735 / 4398046511104"
  "\<lfloor>158329674399735 / 4398046511104 :: rat\<rfloor> = 35"
  by code_simp+

lemma dms_1512:
  "to_double (2659938529915699 / 17592186044416) = 2659938529915699 / 17592186044416"
  "\<lfloor>2659938529915699 / 17592186044416 :: rat\<rfloor> = 151"
  "float_mul (float_sub (2659938529915699 / 17592186044416) 151) 60
     = 52776558133245 / 4398046511104"
  "\<lfloor>52776558133245 / 4398046511104 :: rat\<rfloor> = 11"
  "float_mul (float_sub (52776558133245 / 4398046511104) 11) 60
     = 65970697666515 / 1099511627776"
  "\<lfloor>65970697666515 / 1099511627776 :: rat\<rfloor> = 59"
  by code_simp+

lemma dms_7:
  "to_double (3152519739159347 / 4503599627370496) = 3152519739159347 / 4503599627370496"
  "\<lfloor>3152519739159347 / 4503599627370496 :: rat\<rfloor> = 0"
  "float_mul (float_sub (3152519739159347 / 4503599627370496) 0) 60 = 42"
  "float_mul (float_sub 42 42) 60 = 0"
  "float_mul (float_sub 0 0) 60 = 0"
  by code_simp+

text \<open>
  Claim C8: for every latitude and longitude that \<open>float\<close> can hold, the encoder returns
  its tags; the reference letters follow the sign (N for a latitude of at least 0, else S;
  E for a longitude of at least 0, else W); and the degrees, minutes and seconds are the
  float values that the source computes from the absolute value, each cut down to an
  integer: the floor, never the nearest integer. For \<open>-33.86\<close> and \<open>151.2\<close> the letters
  are S and E, and the triples are 33, 51, 35 and 151, 11, 59.
\<close>

theorem gps_encoder:
  "(\<bar>lat\<bar> < pow2 1024 - pow2 970 \<and> \<bar>lon\<bar> < pow2 1024 - pow2 970 \<longrightarrow>
      (\<exists>tags. get_exif_gps_dict lat lon = Inr tags
         \<and> map_of tags ''GPSLatitudeRef'' = Some (Text (if 0 \<le> lat then ''N'' else ''S''))
         \<and> map_of tags ''GPSLongitudeRef'' = Some (Text (if 0 \<le> lon then ''E'' else ''W''))
         \<and> map_of tags ''GPSLatitude'' =
             Some (let a = to_double \<bar>lat\<bar>;
                       xm = float_mul (float_sub a (of_int \<lfloor>a\<rfloor>)) 60;
                       xs = float_mul (float_sub xm (of_int \<lfloor>xm\<rfloor>)) 60
                   in Triple (\<lfloor>a\<rfloor>, 1) (\<lfloor>xm\<rfloor>, 1) (\<lfloor>xs\<rfloor>, 1))
         \<and> map_of tags ''GPSLongitude'' =
             Some (let a = to_double \<bar>lon\<bar>;
                       xm = float_mul (float_sub a (of_int \<lfloor>a\<rfloor>)) 60;
                       xs = float_mul (float_sub xm (of_int \<lfloor>xm\<rfloor>)) 60
                   in Triple (\<lfloor>a\<rfloor>, 1) (\<lfloor>xm\<rfloor>, 1) (\<lfloor>xs\<rfloor>, 1))))
   \<and> (\<exists>tags. get_exif_gps_dict (to_double (- 3386 / 100)) (to_double (1512 / 10)) = Inr tags
         \<and> map_of tags ''GPSLatitudeRef'' = Some (Text ''S'')
         \<and> map_of tags ''GPSLongitudeRef'' = Some (Text ''E'')
         \<and> map_of tags ''GPSLatitude'' = Some (Triple (33, 1) (51, 1) (35, 1))
         \<and> map_of tags ''GPSLongitude'' = Some (Triple (151, 1) (11, 1) (59, 1)))"
proof -
  have general: "\<exists>tags. get_exif_gps_dict lat lon = Inr tags
         \<and> map_of tags ''GPSLatitudeRef'' = Some (Text (if 0 \<le> lat then ''N'' else ''S''))
         \<and> map_of tags ''GPSLongitudeRef'' = Some (Text (if 0 \<le> lon then ''E'' else ''W''))
         \<and> map_of tags ''GPSLatitude'' =
             Some (let a = to_double \<bar>lat\<bar>;
                       xm = float_mul (float_sub a (of_int \<lfloor>a\<rfloor>)) 60;
                       xs = float_mul (float_sub xm (of_int \<lfloor>xm\<rfloor>)) 60
                   in Triple (\<lfloor>a\<rfloor>, 1) (\<lfloor>xm\<rfloor>, 1) (\<lfloor>xs\<rfloor>, 1))
         \<and> map_of tags ''GPSLongitude'' =
             Some (let a = to_double \<bar>lon\<bar>;
                       xm = float_mul (float_sub a (of_int \<lfloor>a\<rfloor>)) 60;
                       xs = float_mul (float_sub xm (of_int \<lfloor>xm\<rfloor>)) 60
                   in Triple (\<lfloor>a\<rfloor>, 1) (\<lfloor>xm\<rfloor>, 1) (\<lfloor>xs\<rfloor>, 1))"
    if "\<bar>lat\<bar> < pow2 1024 - pow2 970" and "\<bar>lon\<bar> < pow2 1024 - pow2 970"
    for lat lon :: rat
    using convert_to_degrees_floor [of "\<bar>lat\<bar>"] convert_to_degrees_floor [of "\<bar>lon\<bar>"] that
    by (simp add: get_exif_gps_dict_def and_then_def Let_def)
  have example: "\<exists>tags. get_exif_gps_dict (to_double (- 3386 / 100)) (to_double (1512 / 10)) = Inr tags
         \<and> map_of tags ''GPSLatitudeRef'' = Some (Text ''S'')
         \<and> map_of tags ''GPSLongitudeRef'' = Some (Text ''E'')
         \<and> map_of tags ''GPSLatitude'' = Some (Triple (33, 1) (51, 1) (35, 1))
         \<and> map_of tags ''GPSLongitude'' = Some (Triple (151, 1) (11, 1) (59, 1))"
    unfolding double_of_3386 double_of_1512
    using general [of "- (2382685677855703 / 70368744177664)" "2659938529915699 / 17592186044416"]
      small_float [of "- (2382685677855703 / 70368744177664)"]
      small_float [of "2659938529915699 / 17592186044416"]
    by (simp add: dms_3386 dms_1512)
  from general example show ?thesis by blast
qed

text \<open>
  The theorem at the float nearest to \<open>0.7\<close>: the product of that float with 60 rounds
  to 42, so the minutes are 42 and the seconds 0. And the seconds of \<open>33.86\<close> are the
  floor 35 of a float value above 35.99.
\<close>

theorem gps_encoder_witness:
  "(\<exists>tags. get_exif_gps_dict (to_double (7 / 10)) 0 = Inr tags
      \<and> map_of tags ''GPSLatitudeRef'' = Some (Text ''N'')
      \<and> map_of tags ''GPSLongitudeRef'' = Some (Text ''E'')
      \<and> map_of tags ''GPSLatitude'' = Some (Triple (0, 1) (42, 1) (0, 1))
      \<and> map_of tags ''GPSLongitude'' = Some (Triple (0, 1) (0, 1) (0, 1)))
   \<and> float_mul (float_sub (float_mul (float_sub (to_double (3386 / 100)) 33) 60) 51) 60
       = 158329674399735 / 4398046511104
   \<and> (3599 / 100 :: rat) < 158329674399735 / 4398046511104"
proof -
  have a: "\<exists>tags. get_exif_gps_dict (to_double (7 / 10)) 0 = Inr tags
      \<and> map_of tags ''GPSLatitudeRef'' = Some (Text ''N'')
      \<and> map_of tags ''GPSLongitudeRef'' = Some (Text ''E'')
      \<and> map_of tags ''GPSLatitude'' = Some (Triple (0, 1) (42, 1) (0, 1))
      \<and> map_of tags ''GPSLongitude'' = Some (Triple (0, 1) (0, 1) (0, 1))"
    unfolding double_of_7
    using gps_encoder [of "3152519739159347 / 4503599627370496" 0, THEN conjunct1]
      small_float [of "3152519739159347 / 4503599627370496"] small_float [of 0]
    by (simp add: dms_7 to_double_zero)
  have b: "float_mul (float_sub (float_mul (float_sub (to_double (3386 / 100)) 33) 60) 51) 60
       = 158329674399735 / 4398046511104"
    by code_simp
  have c: "(3599 / 100 :: rat) < 158329674399735 / 4398046511104" by simp
  from a b c show ?thesis by blast
qed

section \<open>Properties of the date resolver\<close>

lemma scan_sidecars_in_range:
  "scan_sidecars env fs cands = (Some d, evs) \<Longrightarrow> in_range env d"
  by (induction cands arbitrary: evs)
     (auto split: if_splits sum.splits option.splits prod.splits)

lemma scan_sidecars_rejected:
  assumes "\<forall>q\<in>set cands. exists fs q \<longrightarrow>
             (\<exists>d. decode_sidecar env fs q = Inr (Some d) \<and> \<not> in_range env d)"
  shows "scan_sidecars env fs cands = (None, [])"
  using assms by (induction cands) auto

lemma int_of_str_billion: "int_of_str ''1000000000'' = Some 1000000000"
  by code_simp

lemma int_of_str_1850: "int_of_str ''-3786825600'' = Some (- 3786825600)"
  by code_simp

lemma int_of_str_2030: "int_of_str ''1893456000'' = Some 1893456000"
  by code_simp

lemma candidates_img: "sidecar_candidates [''output'', ''IMG_20190314.png''] = Inr
    [[''output'', ''IMG_20190314.jpg.json''],
      [''output'', ''IMG_20190314.jpeg.json''],
      [''output'', ''IMG_20190314.png.json''],
      [''output'', ''IMG_20190314.gif.json''],
      [''output'', ''IMG_20190314.mp4.json''],
      [''output'', ''IMG_20190314.bmp.json''],
      [''output'', ''IMG_20190314.json''],
      [''output'', ''IMG_20190314.json''],
      [''output'', ''IMG_20190314.bmp.json'']]"
  by code_simp

lemma search_img: "re_search m_8digits ''IMG_20190314.png'' = Some ''20190314''"
  by code_simp

text \<open>
  Claim C1 for a JPEG: a media file that \<open>Image.open\<close> reads as a JPEG and whose tag
  DateTimeOriginal parses as a date with a year from 1900 to the current year resolves to
  that embedded date, whatever its sidecars say: the sidecars are not read.
\<close>

theorem exif_date_wins:
  assumes "read_file fs image_path = Inr (Picture img)"
    and "format img = ''JPEG''"
    and "getexif img = Inr (Some tags)"
    and "map_of tags 36867 = Some (ExifText s)"
    and "strptime_exif env s = Some date"
    and "1900 \<le> year date \<and> year date \<le> now_year env"
  shows "get_date_taken env fs image_path = Inr (Some date, [])"
proof -
  have "exif_date env fs image_path = Inr (Some date)"
    using assms
    by (auto simp: exif_date_def and_then_def image_open_def in_range_def call_getexif_def)
  then show ?thesis by (simp add: get_date_taken_def)
qed

text \<open>
  The theorem at a JPEG with an embedded date in 2010 whose sidecar holds a valid,
  conflicting timestamp in 2001.
\<close>

theorem exif_date_wins_witness:
  "get_date_taken example_env fs_exif_conflict [''output'', ''1000000000_photo.jpg'']
     = Inr (Some \<lparr>year = 2010, month = 6, day = 15, hour = 12, minute = 0, second = 0\<rparr>, [])
   \<and> decode_sidecar example_env fs_exif_conflict [''output'', ''1000000000_photo.jpg.json'']
     = Inr (Some \<lparr>year = 2001, month = 9, day = 9, hour = 1, minute = 46, second = 40\<rparr>)
   \<and> in_range example_env \<lparr>year = 2001, month = 9, day = 9, hour = 1, minute = 46, second = 40\<rparr>"
proof -
  have h1: "read_file fs_exif_conflict [''output'', ''1000000000_photo.jpg'']
      = Inr (Picture \<lparr>format = ''JPEG'',
               getexif = Inr (Some [(36867, ExifText ''2010:06:15 12:00:00'')])\<rparr>)"
    by (simp add: read_file_def fs_exif_conflict_def jpeg_2010_def)
  have h5: "strptime_exif example_env ''2010:06:15 12:00:00''
      = Some \<lparr>year = 2010, month = 6, day = 15, hour = 12, minute = 0, second = 0\<rparr>"
    by (simp add: example_env_def)
  have a: "get_date_taken example_env fs_exif_conflict [''output'', ''1000000000_photo.jpg'']
     = Inr (Some \<lparr>year = 2010, month = 6, day = 15, hour = 12, minute = 0, second = 0\<rparr>, [])"
    by (rule exif_date_wins [OF h1 _ _ _ h5, where tags = "[(36867, ExifText ''2010:06:15 12:00:00'')]"])
       (simp_all add: example_env_def)
  have b: "decode_sidecar example_env fs_exif_conflict [''output'', ''1000000000_photo.jpg.json'']
     = Inr (Some \<lparr>year = 2001, month = 9, day = 9, hour = 1, minute = 46, second = 40\<rparr>)"
    by (simp add: decode_sidecar_def read_file_def fs_exif_conflict_def and_then_def json_load_def
        sidecar_doc_def py_get_def int_of_str_billion example_env_def)
  have c: "in_range example_env \<lparr>year = 2001, month = 9, day = 9, hour = 1, minute = 46, second = 40\<rparr>"
    by (simp add: in_range_def example_env_def)
  from a b c show ?thesis by blast
qed

lemma candidates_tiff: "sidecar_candidates [''output'', ''photo.tiff''] = Inr
    [[''output'', ''photo.jpg.json''],
      [''output'', ''photo.jpeg.json''],
      [''output'', ''photo.png.json''],
      [''output'', ''photo.gif.json''],
      [''output'', ''photo.mp4.json''],
      [''output'', ''photo.bmp.json''],
      [''output'', ''photo.json''],
      [''output'', ''photo.json''],
      [''output'', ''photo.bmp.json'']]"
  by code_simp

text \<open>
  Claim C1 for a TIFF: the source means to read the embedded date of a TIFF too, but the
  call \<open>image._getexif()\<close> raises there. A TIFF whose tag DateTimeOriginal holds a valid
  date in 2010 and whose sidecar holds a valid timestamp in 2001 resolves to the date of
  the sidecar, after the line \<open>Error reading EXIF data\<close>.
\<close>

theorem tiff_embedded_date_loses:
  "read_file fs_tiff_conflict [''output'', ''photo.tiff'']
     = Inr (Picture \<lparr>format = ''TIFF'',
              getexif = Inr (Some [(36867, ExifText ''2010:06:15 12:00:00'')])\<rparr>)
   \<and> strptime_exif example_env ''2010:06:15 12:00:00''
     = Some \<lparr>year = 2010, month = 6, day = 15, hour = 12, minute = 0, second = 0\<rparr>
   \<and> in_range example_env \<lparr>year = 2010, month = 6, day = 15, hour = 12, minute = 0, second = 0\<rparr>
   \<and> get_date_taken example_env fs_tiff_conflict [''output'', ''photo.tiff'']
     = Inr (Some \<lparr>year = 2001, month = 9, day = 9, hour = 1, minute = 46, second = 40\<rparr>,
            [ErrorReadingExif [''output'', ''photo.tiff'']])"
proof -
  let ?p = "[''output'', ''photo.tiff'']"
  have a: "read_file fs_tiff_conflict ?p
     = Inr (Picture \<lparr>format = ''TIFF'',
              getexif = Inr (Some [(36867, ExifText ''2010:06:15 12:00:00'')])\<rparr>)"
    by (simp add: read_file_def fs_tiff_conflict_def tiff_2010_def)
  have b: "strptime_exif example_env ''2010:06:15 12:00:00''
     = Some \<lparr>year = 2010, month = 6, day = 15, hour = 12, minute = 0, second = 0\<rparr>"
    by (simp add: example_env_def)
  have c: "in_range example_env \<lparr>year = 2010, month = 6, day = 15, hour = 12, minute = 0, second = 0\<rparr>"
    by (simp add: in_range_def example_env_def)
  have e: "exif_date example_env fs_tiff_conflict ?p = Inl AttributeError"
    by (simp add: exif_date_def a and_then_def image_open_def call_getexif_def)
  have d: "decode_sidecar example_env fs_tiff_conflict [''output'', ''photo.json'']
     = Inr (Some \<lparr>year = 2001, month = 9, day = 9, hour = 1, minute = 46, second = 40\<rparr>)"
    by (simp add: decode_sidecar_def read_file_def fs_tiff_conflict_def and_then_def json_load_def
        sidecar_doc_def py_get_def int_of_str_billion example_env_def)
  have r: "in_range example_env \<lparr>year = 2001, month = 9, day = 9, hour = 1, minute = 46, second = 40\<rparr>"
    by (simp add: in_range_def example_env_def)
  have ex: "\<not> exists fs_tiff_conflict [''output'', ''photo.jpg.json'']"
    "\<not> exists fs_tiff_conflict [''output'', ''photo.jpeg.json'']"
    "\<not> exists fs_tiff_conflict [''output'', ''photo.png.json'']"
    "\<not> exists fs_tiff_conflict [''output'', ''photo.gif.json'']"
    "\<not> exists fs_tiff_conflict [''output'', ''photo.mp4.json'']"
    "\<not> exists fs_tiff_conflict [''output'', ''photo.bmp.json'']"
    "exists fs_tiff_conflict [''output'', ''photo.json'']"
    by (simp_all add: exists_def fs_tiff_conflict_def)
  have j: "get_date_from_json example_env fs_tiff_conflict ?p
     = Inr (Some \<lparr>year = 2001, month = 9, day = 9, hour = 1, minute = 46, second = 40\<rparr>, [])"
    using ex d r by (simp add: get_date_from_json_def candidates_tiff and_then_def)
  have g: "get_date_taken example_env fs_tiff_conflict ?p
     = Inr (Some \<lparr>year = 2001, month = 9, day = 9, hour = 1, minute = 46, second = 40\<rparr>,
            [ErrorReadingExif ?p])"
    by (simp add: get_date_taken_def e j and_then_def)
  from a b c g show ?thesis by blast
qed

text \<open>
  Claim C4: a date read from a sidecar always lies in the range from 1900 to the current
  year; and when the embedded tags give no date and every candidate sidecar that exists
  decodes to a date outside that range (the year 1850, or five years ahead), the resolver
  returns what the eight-digit pattern of the file name gives.
\<close>

theorem out_of_range_sidecar_rejected:
  "(\<forall>d evs. get_date_from_json env fs image_path = Inr (Some d, evs)
       \<longrightarrow> 1900 \<le> year d \<and> year d \<le> now_year env)
   \<and> ((\<forall>d. exif_date env fs image_path \<noteq> Inr (Some d))
        \<and> sidecar_candidates image_path = Inr candidates
        \<and> (\<forall>q\<in>set candidates. exists fs q \<longrightarrow>
              (\<exists>d. decode_sidecar env fs q = Inr (Some d)
                   \<and> (year d < 1900 \<or> now_year env < year d)))
       \<longrightarrow> map_sum id fst (get_date_taken env fs image_path)
             = Inr (get_date_from_filename env (path_name image_path)))"
proof -
  have a: "\<forall>d evs. get_date_from_json env fs image_path = Inr (Some d, evs)
       \<longrightarrow> 1900 \<le> year d \<and> year d \<le> now_year env"
    using scan_sidecars_in_range [of env fs]
    by (auto simp: get_date_from_json_def and_then_def in_range_def split: sum.splits)
  have b: "map_sum id fst (get_date_taken env fs image_path)
             = Inr (get_date_from_filename env (path_name image_path))"
    if noexif: "\<forall>d. exif_date env fs image_path \<noteq> Inr (Some d)"
      and cands: "sidecar_candidates image_path = Inr candidates"
      and old: "\<forall>q\<in>set candidates. exists fs q \<longrightarrow>
              (\<exists>d. decode_sidecar env fs q = Inr (Some d)
                   \<and> (year d < 1900 \<or> now_year env < year d))"
  proof -
    have rej: "\<forall>q\<in>set candidates. exists fs q \<longrightarrow>
             (\<exists>d. decode_sidecar env fs q = Inr (Some d) \<and> \<not> in_range env d)"
      using old by (auto simp: in_range_def)
    have scan: "scan_sidecars env fs candidates = (None, [])"
      using rej by (rule scan_sidecars_rejected)
    have json: "get_date_from_json env fs image_path = Inr (None, [])"
      using cands scan by (simp add: get_date_from_json_def and_then_def)
    show ?thesis
      using noexif json
      by (auto simp: get_date_taken_def and_then_def Let_def split: sum.splits option.splits)
  qed
  from a b show ?thesis by blast
qed

text \<open>
  The theorem at a PNG named \<open>IMG_20190314.png\<close> whose sidecar decodes to 1850, and to
  2030 when the current year is 2025.
\<close>

theorem out_of_range_sidecar_rejected_witness:
  "map_sum id fst (get_date_taken example_env fs_old_sidecar [''output'', ''IMG_20190314.png''])
     = Inr (Some \<lparr>year = 2019, month = 3, day = 14, hour = 0, minute = 0, second = 0\<rparr>)
   \<and> decode_sidecar example_env fs_old_sidecar [''output'', ''IMG_20190314.png.json'']
     = Inr (Some \<lparr>year = 1850, month = 1, day = 1, hour = 0, minute = 0, second = 0\<rparr>)
   \<and> map_sum id fst (get_date_taken example_env fs_future_sidecar [''output'', ''IMG_20190314.png''])
     = Inr (Some \<lparr>year = 2019, month = 3, day = 14, hour = 0, minute = 0, second = 0\<rparr>)
   \<and> decode_sidecar example_env fs_future_sidecar [''output'', ''IMG_20190314.png.json'']
     = Inr (Some \<lparr>year = 2030, month = 1, day = 1, hour = 0, minute = 0, second = 0\<rparr>)
   \<and> now_year example_env + 5 = 2030"
proof -
  let ?p = "[''output'', ''IMG_20190314.png'']"
  let ?cands = "[[''output'', ''IMG_20190314.jpg.json''],
      [''output'', ''IMG_20190314.jpeg.json''],
      [''output'', ''IMG_20190314.png.json''],
      [''output'', ''IMG_20190314.gif.json''],
      [''output'', ''IMG_20190314.mp4.json''],
      [''output'', ''IMG_20190314.bmp.json''],
      [''output'', ''IMG_20190314.json''],
      [''output'', ''IMG_20190314.json''],
      [''output'', ''IMG_20190314.bmp.json'']]"
  have fn: "get_date_from_filename example_env (path_name ?p)
      = Some \<lparr>year = 2019, month = 3, day = 14, hour = 0, minute = 0, second = 0\<rparr>"
    by (simp add: get_date_from_filename_def path_name_def search_img example_env_def in_range_def
        del: re_search.simps)
  have e1: "\<forall>d. exif_date example_env fs_old_sidecar ?p \<noteq> Inr (Some d)"
    by (simp add: exif_date_def read_file_def fs_old_sidecar_def and_then_def image_open_def
        png_plain_def)
  have e2: "\<forall>d. exif_date example_env fs_future_sidecar ?p \<noteq> Inr (Some d)"
    by (simp add: exif_date_def read_file_def fs_future_sidecar_def and_then_def image_open_def
        png_plain_def)
  have d1: "decode_sidecar example_env fs_old_sidecar [''output'', ''IMG_20190314.png.json'']
     = Inr (Some \<lparr>year = 1850, month = 1, day = 1, hour = 0, minute = 0, second = 0\<rparr>)"
    by (simp add: decode_sidecar_def read_file_def fs_old_sidecar_def and_then_def json_load_def
        sidecar_doc_def py_get_def int_of_str_1850 example_env_def)
  have d2: "decode_sidecar example_env fs_future_sidecar [''output'', ''IMG_20190314.png.json'']
     = Inr (Some \<lparr>year = 2030, month = 1, day = 1, hour = 0, minute = 0, second = 0\<rparr>)"
    by (simp add: decode_sidecar_def read_file_def fs_future_sidecar_def and_then_def json_load_def
        sidecar_doc_def py_get_def int_of_str_2030 example_env_def)
  have o1: "\<forall>q\<in>set ?cands. exists fs_old_sidecar q \<longrightarrow>
              (\<exists>d. decode_sidecar example_env fs_old_sidecar q = Inr (Some d)
                   \<and> (year d < 1900 \<or> now_year example_env < year d))"
    using d1 by (simp add: exists_def fs_old_sidecar_def)
  have o2: "\<forall>q\<in>set ?cands. exists fs_future_sidecar q \<longrightarrow>
              (\<exists>d. decode_sidecar example_env fs_future_sidecar q = Inr (Some d)
                   \<and> (year d < 1900 \<or> now_year example_env < year d))"
    using d2 by (simp add: exists_def fs_future_sidecar_def example_env_def)
  have r1: "map_sum id fst (get_date_taken example_env fs_old_sidecar ?p)
      = Inr (get_date_from_filename example_env (path_name ?p))"
    using out_of_range_sidecar_rejected [of example_env fs_old_sidecar ?p ?cands] e1 candidates_img o1
    by blast
  have r2: "map_sum id fst (get_date_taken example_env fs_future_sidecar ?p)
      = Inr (get_date_from_filename example_env (path_name ?p))"
    using out_of_range_sidecar_rejected [of example_env fs_future_sidecar ?p ?cands] e2 candidates_img o2
    by blast
  have y: "now_year example_env + 5 = 2030" by (simp add: example_env_def)
  from r1 r2 fn d1 d2 y show ?thesis by simp
qed

section \<open>Properties of the archiver\<close>

lemma mkdir_is_dir: "mkdir fs p = Inr fs' \<Longrightarrow> is_dir fs' p"
  by (auto simp: mkdir_def is_dir_def exists_def map_add_def split: if_splits)

lemma mkdir_read_file: "mkdir fs p = Inr fs' \<Longrightarrow> read_file fs q = Inr c \<Longrightarrow> read_file fs' q = Inr c"
  by (auto simp: mkdir_def read_file_def map_add_def split: if_splits option.splits node.splits)

lemma path_parent_joinpath: "path_parent (joinpath d n) = d"
  by (simp add: path_parent_def joinpath_def)

lemma joinpath_not_Nil: "joinpath d n \<noteq> []"
  by (simp add: joinpath_def)

lemma path_name_joinpath: "path_name (joinpath d n) = n"
  by (simp add: path_name_def joinpath_def)

lemma dec_2019: "dec_int 2019 = ''2019''"
  by code_simp

lemma pad2_3: "pad2 3 = ''03''"
  by code_simp

lemma suffix_png: "str_lower (path_suffix [''output'', ''IMG_20190314.png'']) = ''.png''"
  by code_simp

text \<open>
  Claim C7, amended: the archiver makes no check of the destination. For a file whose date
  is resolved and whose year and month folders are made: when the destination
  \<open>output/year/month/name\<close> is occupied by a file, the move replaces that file with the
  moved one and prints the usual line; the move fails exactly when the destination is a
  directory that already holds an entry of that name, and then the error is printed and the
  file stays; in both cases the loop goes on with the next entry.
\<close>

theorem archiver_replaces_occupied_destination:
  assumes src: "read_file (files st) file_path = Inr c"
    and ext: "str_lower (path_suffix file_path) \<in> set supported_extensions"
    and date: "get_date_taken env (files st) file_path = Inr (Some date, evs)"
    and year: "mkdir (files st) (joinpath output_dir (dec_int (year date))) = Inr fs1"
    and month: "mkdir fs1 month_folder = Inr fs2"
    and mf: "month_folder = joinpath (joinpath output_dir (dec_int (year date))) (pad2 (month date))"
    and dst: "dest = joinpath month_folder (path_name file_path)"
  shows "(\<forall>old. map_of fs2 dest = Some (File old) \<longrightarrow>
            archive_file env output_dir st file_path =
              Inr \<lparr>files = AList.update dest (File c) (AList.delete file_path fs2),
                   printed = printed st @ evs @ [Moved (path_name file_path) month_folder]\<rparr>)
       \<and> ((\<exists>e. move_file fs2 file_path dest = Inl e)
            \<longleftrightarrow> is_dir fs2 dest \<and> exists fs2 (joinpath dest (path_name file_path)))
       \<and> ((\<exists>e. move_file fs2 file_path dest = Inl e) \<longrightarrow>
            archive_file env output_dir st file_path =
              Inr \<lparr>files = fs2, printed = printed st @ evs @ [ErrorMoving (path_name file_path)]\<rparr>)
       \<and> (\<exists>st'. archive_file env output_dir st file_path = Inr st'
              \<and> archive_all env output_dir st (file_path # rest) = archive_all env output_dir st' rest)"
proof -
  have isf: "is_file (files st) file_path"
    using src by (auto simp: read_file_def is_file_def split: option.splits node.splits if_splits)
  have notjson: "str_lower (path_suffix file_path) \<noteq> ''.json''"
    using ext by (auto simp: supported_extensions_def)
  have c2: "read_file fs2 file_path = Inr c"
    using mkdir_read_file [OF month mkdir_read_file [OF year src]] .
  have pd: "is_dir fs2 month_folder"
    using month by (rule mkdir_is_dir)
  have step: "archive_file env output_dir st file_path =
      (case move_file fs2 file_path dest of
         Inr fs3 \<Rightarrow> Inr \<lparr>files = fs3,
                         printed = printed st @ evs @ [Moved (path_name file_path) month_folder]\<rparr>
       | Inl e \<Rightarrow> Inr \<lparr>files = fs2,
                        printed = printed st @ evs @ [ErrorMoving (path_name file_path)]\<rparr>)"
    using isf ext notjson date year month
    by (simp add: archive_file_def Let_def and_then_def mf dst split: sum.splits)
  have a: "archive_file env output_dir st file_path =
              Inr \<lparr>files = AList.update dest (File c) (AList.delete file_path fs2),
                   printed = printed st @ evs @ [Moved (path_name file_path) month_folder]\<rparr>"
    if "map_of fs2 dest = Some (File old)" for old
  proof -
    have "\<not> is_dir fs2 dest"
      using that dst by (simp add: is_dir_def joinpath_not_Nil)
    then have "move_file fs2 file_path dest
        = Inr (AList.update dest (File c) (AList.delete file_path fs2))"
      using c2 pd dst by (simp add: move_file_def and_then_def Let_def path_parent_joinpath)
    then show ?thesis by (simp add: step)
  qed
  have b: "(\<exists>e. move_file fs2 file_path dest = Inl e)
            \<longleftrightarrow> is_dir fs2 dest \<and> exists fs2 (joinpath dest (path_name file_path))"
    using c2 pd dst
    by (auto simp: move_file_def and_then_def Let_def path_parent_joinpath)
  have c: "archive_file env output_dir st file_path =
              Inr \<lparr>files = fs2, printed = printed st @ evs @ [ErrorMoving (path_name file_path)]\<rparr>"
    if "\<exists>e. move_file fs2 file_path dest = Inl e"
    using that by (auto simp: step)
  have d: "\<exists>st'. archive_file env output_dir st file_path = Inr st'
              \<and> archive_all env output_dir st (file_path # rest) = archive_all env output_dir st' rest"
    by (cases "move_file fs2 file_path dest") (simp_all add: step and_then_def)
  from a b c d show ?thesis by blast
qed


lemma date_taken_occupied:
  "get_date_taken example_env fs_occupied [''output'', ''IMG_20190314.png'']
     = Inr (Some \<lparr>year = 2019, month = 3, day = 14, hour = 0, minute = 0, second = 0\<rparr>, [])"
proof -
  have e: "exif_date example_env fs_occupied [''output'', ''IMG_20190314.png''] = Inr None"
    by (simp add: exif_date_def read_file_def fs_occupied_def and_then_def image_open_def
        png_plain_def)
  have j: "get_date_from_json example_env fs_occupied [''output'', ''IMG_20190314.png'']
      = Inr (None, [])"
    by (simp add: get_date_from_json_def candidates_img and_then_def exists_def fs_occupied_def)
  have f: "get_date_from_filename example_env (path_name [''output'', ''IMG_20190314.png''])
      = Some \<lparr>year = 2019, month = 3, day = 14, hour = 0, minute = 0, second = 0\<rparr>"
    by (simp add: get_date_from_filename_def path_name_def search_img example_env_def in_range_def
        del: re_search.simps)
  show ?thesis
    using f by (simp add: get_date_taken_def e j and_then_def path_name_def)
qed

lemma glob_occupied:
  "glob fs_occupied [''output''] [] = [[''output'', ''IMG_20190314.png''], [''output'', ''2019'']]"
  by (simp add: glob_def fs_occupied_def path_parent_def)

text \<open>
  The theorem at an output directory that holds \<open>IMG_20190314.png\<close> and, from an earlier
  run, another file at \<open>2019/03/IMG_20190314.png\<close>.
\<close>

theorem archiver_replaces_occupied_destination_witness:
  "map_of fs_occupied [''output'', ''2019'', ''03'', ''IMG_20190314.png''] = Some (File (Opaque 0))
   \<and> archive_file example_env [''output''] \<lparr>files = fs_occupied, printed = []\<rparr>
         [''output'', ''IMG_20190314.png'']
       = Inr \<lparr>files = [([''output''], Dir), ([''output'', ''2019''], Dir),
                         ([''output'', ''2019'', ''03''], Dir),
                         ([''output'', ''2019'', ''03'', ''IMG_20190314.png''], File png_plain)],
              printed = [Moved ''IMG_20190314.png'' [''output'', ''2019'', ''03'']]\<rparr>"
proof -
  let ?st = "\<lparr>files = fs_occupied, printed = []\<rparr>"
  let ?p = "[''output'', ''IMG_20190314.png'']"
  let ?date = "\<lparr>year = 2019, month = 3, day = 14, hour = 0, minute = 0, second = 0\<rparr>"
  have h1: "read_file (files ?st) ?p = Inr png_plain"
    by (simp add: read_file_def fs_occupied_def)
  have h2: "str_lower (path_suffix ?p) \<in> set supported_extensions"
    by (simp add: suffix_png supported_extensions_def)
  have h3: "get_date_taken example_env (files ?st) ?p = Inr (Some ?date, [])"
    by (simp add: date_taken_occupied)
  have h4: "mkdir (files ?st) (joinpath [''output''] (dec_int (year ?date))) = Inr fs_occupied"
    by (simp add: mkdir_def is_dir_def joinpath_def dec_2019 fs_occupied_def)
  have h5: "mkdir fs_occupied [''output'', ''2019'', ''03''] = Inr fs_occupied"
    by (simp add: mkdir_def is_dir_def fs_occupied_def)
  have h6: "[''output'', ''2019'', ''03'']
      = joinpath (joinpath [''output''] (dec_int (year ?date))) (pad2 (month ?date))"
    by (simp add: joinpath_def dec_2019 pad2_3)
  have h7: "[''output'', ''2019'', ''03'', ''IMG_20190314.png'']
      = joinpath [''output'', ''2019'', ''03''] (path_name ?p)"
    by (simp add: joinpath_def path_name_def)
  have occ: "map_of fs_occupied [''output'', ''2019'', ''03'', ''IMG_20190314.png'']
      = Some (File (Opaque 0))"
    by (simp add: fs_occupied_def)
  have "archive_file example_env [''output''] ?st ?p =
      Inr \<lparr>files = AList.update [''output'', ''2019'', ''03'', ''IMG_20190314.png''] (File png_plain)
                       (AList.delete ?p fs_occupied),
           printed = printed ?st @ [] @ [Moved (path_name ?p) [''output'', ''2019'', ''03'']]\<rparr>"
    using archiver_replaces_occupied_destination [OF h1 h2 h3 h4 h5 h6 h7] occ by blast
  then show ?thesis
    using occ by (simp add: fs_occupied_def path_name_def AList.delete_eq)
qed

text \<open>
  Claim C7, as stated: a move to an occupied destination fails as a reported error and the
  file there is not replaced. In this run the file at \<open>output/2019/03/IMG_20190314.png\<close>
  is replaced by the one moved, and the only line printed is that of a normal move.
\<close>

theorem archiver_overwrites_silently:
  "create_date_folders example_env \<lparr>files = fs_occupied, printed = []\<rparr>
     = Inr \<lparr>files = [([''output''], Dir), ([''output'', ''2019''], Dir),
                       ([''output'', ''2019'', ''03''], Dir),
                       ([''output'', ''2019'', ''03'', ''IMG_20190314.png''], File png_plain)],
            printed = [Moved ''IMG_20190314.png'' [''output'', ''2019'', ''03'']]\<rparr>"
proof -
  let ?st = "\<lparr>files = fs_occupied, printed = []\<rparr>"
  let ?st' = "\<lparr>files = [([''output''], Dir), ([''output'', ''2019''], Dir),
                       ([''output'', ''2019'', ''03''], Dir),
                       ([''output'', ''2019'', ''03'', ''IMG_20190314.png''], File png_plain)],
            printed = [Moved ''IMG_20190314.png'' [''output'', ''2019'', ''03'']]\<rparr>"
  have f1: "is_file fs_occupied [''output'', ''IMG_20190314.png'']"
    by (simp add: is_file_def fs_occupied_def)
  have f2: "mkdir fs_occupied [''output'', ''2019''] = Inr fs_occupied"
    by (simp add: mkdir_def is_dir_def fs_occupied_def)
  have f3: "mkdir fs_occupied [''output'', ''2019'', ''03''] = Inr fs_occupied"
    by (simp add: mkdir_def is_dir_def fs_occupied_def)
  have f4: "move_file fs_occupied [''output'', ''IMG_20190314.png'']
              [''output'', ''2019'', ''03'', ''IMG_20190314.png'']
      = Inr [([''output''], Dir), ([''output'', ''2019''], Dir),
             ([''output'', ''2019'', ''03''], Dir),
             ([''output'', ''2019'', ''03'', ''IMG_20190314.png''], File png_plain)]"
    by (simp add: move_file_def read_file_def and_then_def is_dir_def exists_def joinpath_def
        path_parent_def path_name_def AList.delete_eq fs_occupied_def)
  have a: "archive_file example_env [''output''] ?st [''output'', ''IMG_20190314.png''] = Inr ?st'"
    by (simp add: archive_file_def f1 suffix_png supported_extensions_def
        date_taken_occupied and_then_def Let_def dec_2019 pad2_3 joinpath_def f2 f3 f4 path_name_def)
  have b: "archive_file example_env [''output''] ?st' [''output'', ''2019''] = Inr ?st'"
    by (simp add: archive_file_def is_file_def)
  have c: "exists fs_occupied [''output'']"
    by (simp add: exists_def fs_occupied_def)
  show ?thesis
    by (simp add: create_date_folders_def Let_def c glob_occupied a b and_then_def)
qed

section \<open>Properties of the merger\<close>



lemma joinpath_neq_self: "joinpath d n \<noteq> d" "d \<noteq> joinpath d n"
  by (simp_all add: joinpath_def)

lemma embed_exif_cases:
  "embed_exif env fs p sc = fs \<or> (\<exists>c c'. read_file fs p = Inr c \<and> embed_exif env fs p sc = AList.update p (File c') fs)"
  by (auto simp: embed_exif_def and_then_def split: sum.splits)

lemma transfer_done:
  assumes src: "read_file fs media = Inr c"
    and sidecar: "read_file fs json_file = Inr j"
    and out: "is_dir fs output_dir"
    and free: "\<not> is_dir fs (joinpath output_dir new_name)"
              "\<not> is_dir fs (joinpath output_dir (new_name @ ''.json''))"
    and apart: "joinpath output_dir new_name \<noteq> media" "joinpath output_dir new_name \<noteq> json_file"
               "joinpath output_dir (new_name @ ''.json'') \<noteq> media"
               "joinpath output_dir (new_name @ ''.json'') \<noteq> json_file"
               "media \<noteq> json_file"
  shows "\<exists>c' fs'. transfer env photo_dir output_dir fs media json_file sc new_name = (None, fs')
           \<and> map_of fs' = (map_of fs)
                 (joinpath output_dir new_name \<mapsto> File c',
                  joinpath output_dir (new_name @ ''.json'') \<mapsto> File j,
                  media := None,
                  json_file := (if path_parent json_file = photo_dir then None else Some (File j)))"
proof -
  let ?nm = "joinpath output_dir new_name"
  let ?nj = "joinpath output_dir (new_name @ ''.json'')"
  define fs1 where "fs1 = AList.update ?nm (File c) fs"
  define fs2 where "fs2 = (if str_lower (path_suffix media) \<in> set [''.jpg'', ''.jpeg'']
                           then embed_exif env fs1 ?nm sc else fs1)"
  define fs3 where "fs3 = AList.update ?nj (File j) fs2"
  define fs4 where "fs4 = AList.delete media fs3"
  have ne: "?nm \<noteq> ?nj" by (simp add: joinpath_def)
  have media_file: "map_of fs media = Some (File c)" and media_ne: "media \<noteq> []"
    using src by (auto simp: read_file_def split: option.splits node.splits if_splits)
  have json_file: "map_of fs json_file = Some (File j)" and json_ne: "json_file \<noteq> []"
    using sidecar by (auto simp: read_file_def split: option.splits node.splits if_splits)
  have m1: "map_of fs1 = (map_of fs)(?nm \<mapsto> File c)"
    by (simp add: fs1_def update_conv')
  have c1: "copy_file fs media ?nm = Inr fs1"
    using src out free(1) apart(1)
    by (simp add: copy_file_def and_then_def Let_def path_parent_joinpath fs1_def)
  have "\<exists>c'. map_of fs2 = (map_of fs)(?nm \<mapsto> File c')"
  proof (cases "fs2 = fs1")
    case True
    then show ?thesis using m1 by auto
  next
    case False
    then have "embed_exif env fs1 ?nm sc \<noteq> fs1"
      by (auto simp: fs2_def split: if_splits)
    with embed_exif_cases [of env fs1 ?nm sc]
    obtain c' where e: "embed_exif env fs1 ?nm sc = AList.update ?nm (File c') fs1"
      by blast
    have "fs2 = embed_exif env fs1 ?nm sc"
      using False by (auto simp: fs2_def split: if_splits)
    then have "map_of fs2 = (map_of fs)(?nm \<mapsto> File c')"
      by (simp add: e update_conv' m1)
    then show ?thesis by blast
  qed
  then obtain c' where m2: "map_of fs2 = (map_of fs)(?nm \<mapsto> File c')" by blast
  have r2: "read_file fs2 json_file = Inr j"
    using json_file json_ne apart(2) by (simp add: read_file_def m2)
  have d2: "\<not> is_dir fs2 ?nj" "is_dir fs2 output_dir"
    using free(2) out ne
    by (auto simp: is_dir_def m2 joinpath_not_Nil joinpath_neq_self)
  have c2: "copy_file fs2 json_file ?nj = Inr fs3"
    using r2 d2 apart(4)
    by (simp add: copy_file_def and_then_def Let_def path_parent_joinpath fs3_def)
  have m3: "map_of fs3 = (map_of fs)(?nm \<mapsto> File c', ?nj \<mapsto> File j)"
    by (simp add: fs3_def update_conv' m2)
  have f3: "is_file fs3 media"
    using media_file media_ne apart(1) apart(3) by (simp add: is_file_def m3)
  have c3: "remove_file fs3 media = Inr fs4"
    using f3 by (simp add: remove_file_def fs4_def)
  have m4: "map_of fs4 = (map_of fs)(?nm \<mapsto> File c', ?nj \<mapsto> File j, media := None)"
    by (simp add: fs4_def delete_conv' m3)
  have keep: "map_of fs4 json_file = Some (File j)"
    using json_file apart by (simp add: m4)
  have f4: "is_file fs4 json_file"
    using keep json_ne by (simp add: is_file_def)
  have c4: "remove_file fs4 json_file = Inr (AList.delete json_file fs4)"
    using f4 by (simp add: remove_file_def)
  have tr: "transfer env photo_dir output_dir fs media json_file sc new_name =
      (case copy_file fs2 json_file ?nj of
         Inl e \<Rightarrow> (Some e, fs2)
       | Inr fs3 \<Rightarrow>
           (case remove_file fs3 media of
              Inl e \<Rightarrow> (Some e, fs3)
            | Inr fs4 \<Rightarrow>
                if path_parent json_file = photo_dir
                then (case remove_file fs4 json_file of
                        Inl e \<Rightarrow> (Some e, fs4)
                      | Inr fs5 \<Rightarrow> (None, fs5))
                else (None, fs4)))"
    unfolding fs2_def by (simp add: transfer_def Let_def c1)
  show ?thesis
  proof (cases "path_parent json_file = photo_dir")
    case True
    have "transfer env photo_dir output_dir fs media json_file sc new_name
        = (None, AList.delete json_file fs4)"
      using True by (simp add: tr c2 c3 c4)
    moreover have "map_of (AList.delete json_file fs4) = (map_of fs)
                 (?nm \<mapsto> File c', ?nj \<mapsto> File j, media := None,
                  json_file := (if path_parent json_file = photo_dir then None else Some (File j)))"
      using True by (simp add: delete_conv' m4)
    ultimately show ?thesis by blast
  next
    case False
    have "transfer env photo_dir output_dir fs media json_file sc new_name = (None, fs4)"
      using False by (simp add: tr c2 c3)
    moreover have "map_of fs4 = (map_of fs)
                 (?nm \<mapsto> File c', ?nj \<mapsto> File j, media := None,
                  json_file := (if path_parent json_file = photo_dir then None else Some (File j)))"
    proof -
      from keep have "(map_of fs4)(json_file := Some (File j)) = map_of fs4"
        by (rule fun_upd_idem)
      then show ?thesis using False by (simp add: m4)
    qed
    ultimately show ?thesis by blast
  qed
qed



lemma process_media_done:
  assumes match: "find_json_for_photo media json_files = Some json_file"
    and sidecar: "read_file (files st) json_file = Inr (JsonText doc)"
    and meta: "read_metadata env doc = Inr sc"
    and true: "truthy (timestamp sc)"
    and src: "read_file (files st) media = Inr c"
    and name: "new_name = py_str env (timestamp sc) @ ''_'' @ path_name media"
    and out: "is_dir (files st) output_dir"
    and free: "\<not> is_dir (files st) (joinpath output_dir new_name)"
              "\<not> is_dir (files st) (joinpath output_dir (new_name @ ''.json''))"
    and apart: "joinpath output_dir new_name \<noteq> media" "joinpath output_dir new_name \<noteq> json_file"
               "joinpath output_dir (new_name @ ''.json'') \<noteq> media"
               "joinpath output_dir (new_name @ ''.json'') \<noteq> json_file"
               "media \<noteq> json_file"
  shows "\<exists>c' fs' evs.
           process_media env photo_dir output_dir json_files st media
             = \<lparr>files = fs', printed = printed st @ Processed (path_name media) new_name # evs\<rparr>
           \<and> map_of fs' = (map_of (files st))
                 (joinpath output_dir new_name \<mapsto> File c',
                  joinpath output_dir (new_name @ ''.json'') \<mapsto> File (JsonText doc),
                  media := None,
                  json_file := (if path_parent json_file = photo_dir then None
                                else Some (File (JsonText doc))))"
proof -
  from transfer_done [OF src sidecar out free apart, of env photo_dir sc]
  obtain c' fs' where
    tr: "transfer env photo_dir output_dir (files st) media json_file sc new_name = (None, fs')"
    and m: "map_of fs' = (map_of (files st))
                 (joinpath output_dir new_name \<mapsto> File c',
                  joinpath output_dir (new_name @ ''.json'') \<mapsto> File (JsonText doc),
                  media := None,
                  json_file := (if path_parent json_file = photo_dir then None
                                else Some (File (JsonText doc))))"
    by blast
  have ex: "exists (files st) json_file"
    using sidecar by (auto simp: read_file_def exists_def split: option.splits)
  have rd: "and_then (and_then (read_file (files st) json_file) json_load) (read_metadata env) = Inr sc"
    using sidecar meta by (simp add: and_then_def json_load_def)
  have "\<exists>evs. process_media env photo_dir output_dir json_files st media
      = \<lparr>files = fs', printed = printed st @ Processed (path_name media) new_name # evs\<rparr>"
    using match ex rd true tr name
    by (auto simp: process_media_def Let_def split: sum.splits)
  with m show ?thesis by blast
qed



lemma copy_file_exists:
  "copy_file fs s d = Inr fs' \<Longrightarrow> exists fs p \<Longrightarrow> exists fs' p"
  by (auto simp: copy_file_def and_then_def Let_def exists_def update_conv'
      split: sum.splits if_splits)

lemma embed_exif_exists: "exists fs p \<Longrightarrow> exists (embed_exif env fs q sc) p"
  using embed_exif_cases [of env fs q sc]
  by (auto simp: exists_def update_conv' split: if_splits)

lemma remove_file_exists:
  "remove_file fs q = Inr fs' \<Longrightarrow> exists fs p \<Longrightarrow> p \<noteq> q \<Longrightarrow> exists fs' p"
  by (auto simp: remove_file_def exists_def delete_conv' split: if_splits)

lemma transfer_keeps:
  assumes "transfer env photo_dir output_dir fs media json_file sc new_name = (r, fs')"
    and "exists fs p" and "p \<noteq> media" and "path_parent p \<noteq> photo_dir"
  shows "exists fs' p"
proof (cases "copy_file fs media (joinpath output_dir new_name)")
  case (Inl e)
  with assms show ?thesis by (simp add: transfer_def Let_def)
next
  case (Inr fs1)
  define fs2 where "fs2 = (if str_lower (path_suffix media) \<in> set [''.jpg'', ''.jpeg'']
                           then embed_exif env fs1 (joinpath output_dir new_name) sc else fs1)"
  have e1: "exists fs1 p" using Inr assms(2) by (rule copy_file_exists)
  have e2: "exists fs2 p" using e1 by (simp add: fs2_def embed_exif_exists)
  have tr: "transfer env photo_dir output_dir fs media json_file sc new_name =
      (case copy_file fs2 json_file (joinpath output_dir (new_name @ ''.json'')) of
         Inl e \<Rightarrow> (Some e, fs2)
       | Inr fs3 \<Rightarrow>
           (case remove_file fs3 media of
              Inl e \<Rightarrow> (Some e, fs3)
            | Inr fs4 \<Rightarrow>
                if path_parent json_file = photo_dir
                then (case remove_file fs4 json_file of
                        Inl e \<Rightarrow> (Some e, fs4)
                      | Inr fs5 \<Rightarrow> (None, fs5))
                else (None, fs4)))"
    unfolding fs2_def by (simp add: transfer_def Let_def Inr)
  show ?thesis
  proof (cases "copy_file fs2 json_file (joinpath output_dir (new_name @ ''.json''))")
    case (Inl e)
    with assms(1) e2 show ?thesis by (simp add: tr)
  next
    case c2: (Inr fs3)
    have e3: "exists fs3 p" using c2 e2 by (rule copy_file_exists)
    show ?thesis
    proof (cases "remove_file fs3 media")
      case (Inl e)
      with assms(1) e3 c2 show ?thesis by (simp add: tr)
    next
      case c3: (Inr fs4)
      have e4: "exists fs4 p" using c3 e3 assms(3) by (rule remove_file_exists)
      show ?thesis
      proof (cases "path_parent json_file = photo_dir")
        case False
        with assms(1) e4 c2 c3 show ?thesis by (simp add: tr)
      next
        case True
        then have pj: "p \<noteq> json_file" using assms(4) by auto
        show ?thesis
        proof (cases "remove_file fs4 json_file")
          case (Inl e)
          with assms(1) e4 c2 c3 True show ?thesis by (simp add: tr)
        next
          case c4: (Inr fs5)
          have "exists fs5 p" using c4 e4 pj by (rule remove_file_exists)
          with assms(1) c2 c3 c4 True show ?thesis by (simp add: tr)
        qed
      qed
    qed
  qed
qed

lemma process_media_keeps:
  assumes "exists (files st) p" and "p \<noteq> media" and "path_parent p \<noteq> photo_dir"
  shows "exists (files (process_media env photo_dir output_dir json_files st media)) p"
  using assms transfer_keeps [of env photo_dir output_dir "files st" media _ _ _ _ _ p]
  by (auto simp: process_media_def Let_def split: option.splits sum.splits prod.splits)

lemma match_pair:
  "find_json_for_photo [''Photos from 2015'', ''photo.jpg''] [[''Photos from 2015'', ''photo.json'']]
     = Some [''Photos from 2015'', ''photo.json'']"
  by code_simp


lemma mkdir_parents_output:
  assumes "map_of fs [''output''] = None"
  shows "mkdir_parents fs [''output''] = Inr (fs @ [([''output''], Dir)])"
proof -
  have a: "mkdir_parents fs [] = Inr fs"
    by (simp add: mkdir_parents.simps [of fs "[]"] is_dir_def)
  show ?thesis
    using assms a
    by (simp add: mkdir_parents.simps [of fs "[''output'']"] is_dir_def exists_def and_then_def)
qed

lemma globs_pair:
  fixes fs0 :: filesystem
  assumes "map fst fs0 = [[''Photos from 2015''], [''Photos from 2015'', ''photo.jpg''],
                          [''Photos from 2015'', ''photo.json''], [''output'']]"
  shows "concat (map (glob fs0 [''Photos from 2015'']) media_extensions)
           = [[''Photos from 2015'', ''photo.jpg'']]"
    and "glob fs0 [''Photos from 2015''] ''.json'' = [[''Photos from 2015'', ''photo.json'']]"
    and "glob fs0 [''output''] ''.json'' = []"
  using assms
  by (simp_all add: glob_def media_extensions_def path_parent_def path_name_def suffix_to_prefix)

text \<open>
Claim C6: the run of the source on a directory \<open>Photos from 2015\<close> that holds
  \<open>photo.jpg\<close> and a sidecar \<open>photo.json\<close> whose timestamp is the string
  \<open>1000000000\<close> leaves \<open>output/1000000000_photo.jpg\<close> and
  \<open>output/1000000000_photo.jpg.json\<close> (the sidecar, unchanged) and removes both
  originals from the source directory. And in every step, a file other than the media
  file that does not lie in the source directory still exists afterwards: a sidecar that
  lives in the destination is never deleted.
\<close>

theorem merger_end_to_end:
  assumes meta: "read_metadata env doc = Inr sc"
    and ts: "timestamp sc = JStr ''1000000000''"
  shows "(\<exists>st' c'.
            process_photos_and_json env [''Photos from 2015''] [''Photos from 2015''] [''output'']
              \<lparr>files = [([''Photos from 2015''], Dir),
                        ([''Photos from 2015'', ''photo.jpg''], File c),
                        ([''Photos from 2015'', ''photo.json''], File (JsonText doc))],
               printed = []\<rparr> = Inr st'
            \<and> map_of (files st') [''output'', ''1000000000_photo.jpg''] = Some (File c')
            \<and> map_of (files st') [''output'', ''1000000000_photo.jpg.json'']
                = Some (File (JsonText doc))
            \<and> map_of (files st') [''Photos from 2015'', ''photo.jpg''] = None
            \<and> map_of (files st') [''Photos from 2015'', ''photo.json''] = None)
       \<and> (\<forall>p. exists (files st) p \<and> p \<noteq> media \<and> path_parent p \<noteq> photo_dir
              \<longrightarrow> exists (files (process_media env photo_dir output_dir json_files st media)) p)"
proof -
  let ?src = "[''Photos from 2015'']"
  let ?media = "[''Photos from 2015'', ''photo.jpg'']"
  let ?json = "[''Photos from 2015'', ''photo.json'']"
  let ?fs = "[(?src, Dir), (?media, File c), (?json, File (JsonText doc))]"
  let ?fsout = "[(?src, Dir), (?media, File c), (?json, File (JsonText doc)), ([''output''], Dir)]"
  let ?start = "\<lparr>files = ?fsout, printed = []\<rparr>"
  have mk: "mkdir_parents ?fs [''output''] = Inr ?fsout"
    by (simp add: mkdir_parents_output)
  have names: "map fst ?fsout = [?src, ?media, ?json, [''output'']]" by simp
  have g1: "concat (map (glob ?fsout ?src) media_extensions) = [?media]"
    using names by (rule globs_pair(1))
  have g2: "glob ?fsout ?src ''.json'' = [?json]"
    using names by (rule globs_pair(2))
  have g3: "glob ?fsout [''output''] ''.json'' = []"
    using names by (rule globs_pair(3))
  have ex: "exists ?fsout ?json" by (simp add: exists_def)
  have run: "process_photos_and_json env ?src ?src [''output''] \<lparr>files = ?fs, printed = []\<rparr>
      = Inr (process_media env ?src [''output''] [?json] ?start ?media)"
    using ex by (simp add: process_photos_and_json_def mk and_then_def Let_def g1 g2 g3)
  have nm: "''1000000000_photo.jpg'' = py_str env (timestamp sc) @ ''_'' @ path_name ?media"
    by (simp add: ts py_str_def path_name_def)
  from process_media_done [where st = ?start and media = ?media and json_files = "[?json]"
      and json_file = ?json and doc = doc and env = env and sc = sc and c = c
      and new_name = "''1000000000_photo.jpg''" and output_dir = "[''output'']"
      and photo_dir = ?src, OF match_pair _ meta _ _ nm]
  obtain c' fs' evs where
    step: "process_media env ?src [''output''] [?json] ?start ?media
        = \<lparr>files = fs', printed = printed ?start @ Processed (path_name ?media) ''1000000000_photo.jpg'' # evs\<rparr>"
    and m: "map_of fs' = (map_of (files ?start))
                 (joinpath [''output''] ''1000000000_photo.jpg'' \<mapsto> File c',
                  joinpath [''output''] (''1000000000_photo.jpg'' @ ''.json'') \<mapsto> File (JsonText doc),
                  ?media := None,
                  ?json := (if path_parent ?json = ?src then None else Some (File (JsonText doc))))"
    by (auto simp: read_file_def is_dir_def joinpath_def ts)
  have a: "\<exists>st' c'.
            process_photos_and_json env ?src ?src [''output''] \<lparr>files = ?fs, printed = []\<rparr> = Inr st'
            \<and> map_of (files st') [''output'', ''1000000000_photo.jpg''] = Some (File c')
            \<and> map_of (files st') [''output'', ''1000000000_photo.jpg.json'']
                = Some (File (JsonText doc))
            \<and> map_of (files st') ?media = None
            \<and> map_of (files st') ?json = None"
    using m by (simp add: run step joinpath_def path_parent_def)
  have b: "\<forall>p. exists (files st) p \<and> p \<noteq> media \<and> path_parent p \<noteq> photo_dir
              \<longrightarrow> exists (files (process_media env photo_dir output_dir json_files st media)) p"
    using process_media_keeps by blast
  from a b show ?thesis by blast
qed




lemma read_metadata_plain:
  assumes "convert_timestamp env (JStr ts) = Inr ()"
  shows "read_metadata env (JDict [(''photoTakenTime'', JDict [(''timestamp'', JStr ts)])])
           = Inr (plain_sidecar ts)"
  using assms
  by (simp add: read_metadata_def py_get_def and_then_def people_names_of_def plain_sidecar_def)

lemma convert_billion: "convert_timestamp example_env (JStr ''1000000000'') = Inr ()"
  by (simp add: convert_timestamp_def py_str_def int_of_str_billion example_env_def)




text \<open>
The theorem with the example environment, and at a sidecar that lives in the output
  directory.
\<close>

theorem merger_end_to_end_witness:
  "(\<exists>st' c'.
      process_photos_and_json example_env [''Photos from 2015''] [''Photos from 2015''] [''output'']
        \<lparr>files = [([''Photos from 2015''], Dir),
                  ([''Photos from 2015'', ''photo.jpg''], File jpeg_2010),
                  ([''Photos from 2015'', ''photo.json''],
                   File (JsonText (JDict [(''photoTakenTime'',
                                           JDict [(''timestamp'', JStr ''1000000000'')])])))],
         printed = []\<rparr> = Inr st'
      \<and> map_of (files st') [''output'', ''1000000000_photo.jpg''] = Some (File c')
      \<and> map_of (files st') [''output'', ''1000000000_photo.jpg.json'']
          = Some (File (JsonText (JDict [(''photoTakenTime'',
                                           JDict [(''timestamp'', JStr ''1000000000'')])])))
      \<and> map_of (files st') [''Photos from 2015'', ''photo.jpg''] = None
      \<and> map_of (files st') [''Photos from 2015'', ''photo.json''] = None)
   \<and> exists (files (process_media example_env [''Photos from 2015''] [''output'']
                      [[''output'', ''photo.json'']] \<lparr>files = fs_dest_sidecar, printed = []\<rparr>
                      [''Photos from 2015'', ''photo.jpg'']))
         [''output'', ''photo.json'']"
proof -
  have meta: "read_metadata example_env
      (JDict [(''photoTakenTime'', JDict [(''timestamp'', JStr ''1000000000'')])])
        = Inr (plain_sidecar ''1000000000'')"
    using convert_billion by (rule read_metadata_plain)
  have ts: "timestamp (plain_sidecar ''1000000000'') = JStr ''1000000000''"
    by (simp add: plain_sidecar_def)
  have before: "exists (files \<lparr>files = fs_dest_sidecar, printed = []\<rparr>) [''output'', ''photo.json'']"
    by (simp add: exists_def fs_dest_sidecar_def)
  have other: "[''output'', ''photo.json''] \<noteq> [''Photos from 2015'', ''photo.jpg'']"
    by simp
  have dir: "path_parent [''output'', ''photo.json''] \<noteq> [''Photos from 2015'']"
    by (simp add: path_parent_def)
  note inst = merger_end_to_end [OF meta ts, of jpeg_2010
      "\<lparr>files = fs_dest_sidecar, printed = []\<rparr>" "[''Photos from 2015'', ''photo.jpg'']"
      "[''Photos from 2015'']" "[''output'']" "[[''output'', ''photo.json'']]"]
  from inst before other dir show ?thesis by blast
qed

section \<open>Properties of the merger's handling of the timestamp\<close>




section \<open>Idempotence of the normalizer\<close>

lemma re_sub_no_match:
  "(\<And>t. suffix t s \<Longrightarrow> m t = None) \<Longrightarrow> re_sub m s = s"
proof (induction s)
  case Nil
  show ?case by simp
next
  case (Cons c cs)
  have "m (c # cs) = None" using Cons.prems by simp
  moreover have "re_sub m cs = cs"
    using Cons.IH Cons.prems by (simp add: suffix_Cons)
  ultimately show ?case by simp
qed

lemma re_search_None_suffix:
  "re_search m s = None \<Longrightarrow> suffix t s \<Longrightarrow> t \<noteq> [] \<Longrightarrow> m t = None"
proof (induction s)
  case Nil
  then show ?case by simp
next
  case (Cons c cs)
  from Cons.prems(1) have a: "m (c # cs) = None" and b: "re_search m cs = None"
    by (auto split: option.splits)
  from Cons.prems(2) have "t = c # cs \<or> suffix t cs" by (auto simp: suffix_Cons)
  then show ?case using a b Cons.IH Cons.prems(3) by auto
qed

lemma re_sub_deleting_subset:
  "(\<And>t k r. m t = Some (k, r) \<Longrightarrow> r = []) \<Longrightarrow> set (re_sub m s) \<subseteq> set s"
proof (induction m s rule: re_sub.induct)
  case (1 m)
  show ?case by simp
next
  case (2 m c cs)
  show ?case
  proof (cases "m (c # cs)")
    case None
    then show ?thesis using 2(1) 2(3) by auto
  next
    case (Some kr)
    obtain k r where kr: "(k, r) = kr" by (cases kr) auto
    have "set (re_sub m (drop (k - 1) cs)) \<subseteq> set (drop (k - 1) cs)"
      using 2(2) [OF Some kr] 2(3) by blast
    moreover have "set (drop (k - 1) cs) \<subseteq> set cs" by (rule set_drop_subset)
    moreover have "r = []" using Some kr 2(3) [of "c # cs" k r] by simp
    ultimately show ?thesis using Some kr [symmetric] by auto
  qed
qed

lemma m_spaces_Some: "m_spaces t = Some (k, r) \<Longrightarrow> r = [] \<and> t \<noteq> [] \<and> is_space (hd t)"
  by (cases t) (auto simp: m_spaces_def delete_def Let_def split: if_splits)

lemma m_dot_Some: "m_dot t = Some (k, r) \<Longrightarrow> r = [] \<and> t \<noteq> [] \<and> hd t = CHR ''.''"
  by (cases t) (auto simp: m_dot_def delete_def split: if_splits)

lemma m_underscores_eos_Some:
  "m_underscores_eos t = Some (k, r) \<Longrightarrow>
     r = [] \<and> 0 < k \<and> k = length (takeWhile (\<lambda>c. c = CHR ''_'') t) \<and> at_eos (drop k t)"
  by (auto simp: m_underscores_eos_def delete_def Let_def split: if_splits)

lemma m_literal_eos_Some:
  "m_literal_eos lit t = Some (k, r) \<Longrightarrow> prefix lit t \<and> at_eos (drop (length lit) t)"
  by (auto simp: m_literal_eos_def delete_def split: if_splits)

lemma re_sub_spaces_no_space: "\<forall>c\<in>set (re_sub m_spaces s). \<not> is_space c"
proof (induction m_spaces s rule: re_sub.induct)
  case 1
  show ?case by simp
next
  case (2 c cs)
  show ?case
  proof (cases "m_spaces (c # cs)")
    case None
    then have "\<not> is_space c" by (auto simp: m_spaces_def delete_def Let_def split: if_splits)
    then show ?thesis using None 2(1) by simp
  next
    case (Some kr)
    obtain k r where kr: "(k, r) = kr" by (cases kr) auto
    have "r = []" using m_spaces_Some [of "c # cs" k r] Some kr by simp
    then show ?thesis using 2(2) [OF Some kr] Some kr [symmetric] by simp
  qed
qed

lemma re_sub_dot_filter: "re_sub m_dot s = filter (\<lambda>c. c \<noteq> CHR ''.'') s"
  by (induction s) (auto simp: m_dot_def delete_def)

lemma at_eos_no_newline: "CHR 0x0A \<notin> set s \<Longrightarrow> at_eos s \<longleftrightarrow> s = []"
  by (auto simp: at_eos_def)

lemma is_space_newline: "is_space (CHR 0x0A)"
  by (simp add: is_space_def)

lemma underscores_all:
  "CHR 0x0A \<notin> set s \<Longrightarrow> re_sub m_underscores_eos s = [] \<Longrightarrow> list_all (\<lambda>c. c = CHR ''_'') s"
proof (induction s)
  case Nil
  show ?case by simp
next
  case (Cons c cs)
  show ?case
  proof (cases "m_underscores_eos (c # cs)")
    case None
    then show ?thesis using Cons.prems by simp
  next
    case (Some kr)
    obtain k r where kr: "kr = (k, r)" by (cases kr)
    have "m_underscores_eos (c # cs) = Some (k, r)" using Some kr by simp
    from m_underscores_eos_Some [OF this]
    have k: "k = length (takeWhile (\<lambda>c. c = CHR ''_'') (c # cs))" and e: "at_eos (drop k (c # cs))"
      by blast+
    have "CHR 0x0A \<notin> set (drop k (c # cs))"
      using Cons.prems(1) set_drop_subset [of k "c # cs"] by blast
    then have "drop k (c # cs) = []" using e at_eos_no_newline by blast
    then have "length (c # cs) \<le> length (takeWhile (\<lambda>c. c = CHR ''_'') (c # cs))"
      using k by simp
    then have "takeWhile (\<lambda>c. c = CHR ''_'') (c # cs) = c # cs"
      by (metis length_takeWhile_le le_antisym takeWhile_eq_take take_all_iff)
    then show ?thesis by (metis list_all_iff set_takeWhileD)
  qed
qed

lemma underscores_last:
  "CHR 0x0A \<notin> set s \<Longrightarrow>
     re_sub m_underscores_eos s = [] \<or> last (re_sub m_underscores_eos s) \<noteq> CHR ''_''"
proof (induction s)
  case Nil
  show ?case by simp
next
  case (Cons c cs)
  show ?case
  proof (cases "m_underscores_eos (c # cs)")
    case None
    have ih: "re_sub m_underscores_eos cs = [] \<or> last (re_sub m_underscores_eos cs) \<noteq> CHR ''_''"
      using Cons by simp
    show ?thesis
    proof (cases "re_sub m_underscores_eos cs = []")
      case True
      then have all: "list_all (\<lambda>c. c = CHR ''_'') cs" using underscores_all Cons.prems by simp
      have "c \<noteq> CHR ''_''"
      proof
        assume c: "c = CHR ''_''"
        then have "takeWhile (\<lambda>c. c = CHR ''_'') (c # cs) = c # cs"
          using all by (simp add: list_all_iff)
        then have "m_underscores_eos (c # cs) \<noteq> None"
          by (simp add: m_underscores_eos_def Let_def delete_def at_eos_def)
        then show False using None by simp
      qed
      then show ?thesis using None True by simp
    next
      case False
      then show ?thesis using None ih by simp
    qed
  next
    case (Some kr)
    obtain k r where kr: "kr = (k, r)" by (cases kr)
    have "m_underscores_eos (c # cs) = Some (k, r)" using Some kr by simp
    from m_underscores_eos_Some [OF this]
    have r: "r = []" and k0: "0 < k" and e: "at_eos (drop k (c # cs))"
      by blast+
    have "CHR 0x0A \<notin> set (drop k (c # cs))"
      using Cons.prems(1) set_drop_subset [of k "c # cs"] by blast
    then have "drop k (c # cs) = []" using e at_eos_no_newline by blast
    then have "drop (k - 1) cs = []" using k0 by (cases k) auto
    then show ?thesis using Some kr r by simp
  qed
qed

lemma eat_digits_Some:
  "eat_digits n s = Some (g, r) \<Longrightarrow> length g = n \<and> length r + n = length s \<and> set r \<subseteq> set s"
  using set_drop_subset [of n s] by (auto simp: eat_digits_def split: if_splits)

lemma eat_char_Some:
  "eat_char c s = Some r \<Longrightarrow> length r + 1 = length s \<and> set r \<subseteq> set s"
  by (cases s) (auto simp: eat_char_def split: if_splits)

lemma eat_spaces_Some:
  "eat_spaces s = Some r \<Longrightarrow> length r + 1 \<le> length s \<and> (\<exists>c\<in>set s. is_space c)"
proof (cases s)
  case Nil
  assume "eat_spaces s = Some r"
  then show ?thesis using Nil by (simp add: eat_spaces_def)
next
  case (Cons x xs)
  assume "eat_spaces s = Some r"
  then have "is_space x" and "r = dropWhile is_space xs"
    using Cons by (auto simp: eat_spaces_def split: if_splits)
  then show ?thesis using Cons length_dropWhile_le [of is_space xs] by auto
qed

lemma m_date_format_Some:
  assumes "m_date_format s = Some (k, r)"
  shows "length r = 15 \<and> 17 \<le> k \<and> k \<le> length s \<and> (\<exists>c\<in>set s. is_space c)"
proof -
  from assms obtain g1 s1 s2 g2 s3 s4 g3 s5 s6 g4 s7 s8 g5 s9 s10 g6 s11 where
    e1: "eat_digits 4 s = Some (g1, s1)" and e2: "eat_char CHR ''-'' s1 = Some s2"
    and e3: "eat_digits 2 s2 = Some (g2, s3)" and e4: "eat_char CHR ''-'' s3 = Some s4"
    and e5: "eat_digits 2 s4 = Some (g3, s5)" and e6: "eat_spaces s5 = Some s6"
    and e7: "eat_digits 2 s6 = Some (g4, s7)" and e8: "eat_char CHR ''.'' s7 = Some s8"
    and e9: "eat_digits 2 s8 = Some (g5, s9)" and e10: "eat_char CHR ''.'' s9 = Some s10"
    and e11: "eat_digits 2 s10 = Some (g6, s11)"
    and k: "k = length s - length s11" and r: "r = g1 @ g2 @ g3 @ ''_'' @ g4 @ g5 @ g6"
    unfolding m_date_format_def
    by (auto simp: bind_eq_Some_conv)
  note d = eat_digits_Some [OF e1] eat_digits_Some [OF e3] eat_digits_Some [OF e5]
    eat_digits_Some [OF e7] eat_digits_Some [OF e9] eat_digits_Some [OF e11]
  note c = eat_char_Some [OF e2] eat_char_Some [OF e4] eat_char_Some [OF e8]
    eat_char_Some [OF e10]
  note sp = eat_spaces_Some [OF e6]
  have "length r = 15" using d r by simp
  moreover have "length s11 + 17 \<le> length s" using d c sp by linarith
  moreover have "set s5 \<subseteq> set s" using d c by blast
  ultimately show ?thesis using k sp by auto
qed

lemma m_numbering_Some:
  "m_numbering t = Some (k, r) \<Longrightarrow> r = [] \<and> 0 < k \<and> k \<le> length t"
proof (cases t)
  case Nil
  assume "m_numbering t = Some (k, r)"
  then show ?thesis using Nil by (simp add: m_numbering_def)
next
  case (Cons c cs)
  assume "m_numbering t = Some (k, r)"
  then have r: "r = []" and k: "k = length (takeWhile is_digit cs) + 2"
    and d: "dropWhile is_digit cs \<noteq> []"
    using Cons by (auto simp: m_numbering_def Let_def delete_def split: if_splits)
  have l: "length (takeWhile is_digit cs) + length (dropWhile is_digit cs) = length cs"
    by (metis length_append takeWhile_dropWhile_id)
  from d have p: "0 < length (dropWhile is_digit cs)" unfolding length_greater_0_conv .
  have t: "length t = length cs + 1" using Cons by simp
  from k l p t have "0 < k \<and> k \<le> length t" by linarith
  then show ?thesis using r by blast
qed

lemma re_sub_length:
  "(\<And>t k r. m t = Some (k, r) \<Longrightarrow> length r < k \<and> length r < length t) \<Longrightarrow>
     length (re_sub m s) \<le> length s"
proof (induction m s rule: re_sub.induct)
  case (1 m)
  show ?case by simp
next
  case (2 m c cs)
  show ?case
  proof (cases "m (c # cs)")
    case None
    then show ?thesis using 2(1) 2(3) by auto
  next
    case (Some kr)
    obtain k r where kr: "(k, r) = kr" by (cases kr) auto
    have ih: "length (re_sub m (drop (k - 1) cs)) \<le> length (drop (k - 1) cs)"
      using 2(2) [OF Some kr] 2(3) by blast
    have "m (c # cs) = Some (k, r)" using Some kr by simp
    from 2(3) [OF this] have "length r < k" and "length r < length (c # cs)" by blast+
    then show ?thesis using ih Some kr [symmetric] by auto
  qed
qed

lemma re_sub_length_strict:
  "(\<And>t k r. m t = Some (k, r) \<Longrightarrow> length r < k \<and> length r < length t) \<Longrightarrow>
     suffix t s \<Longrightarrow> m t \<noteq> None \<Longrightarrow> m [] = None \<Longrightarrow> length (re_sub m s) < length s"
proof (induction m s rule: re_sub.induct)
  case (1 m)
  then show ?case by simp
next
  case (2 m c cs)
  show ?case
  proof (cases "m (c # cs)")
    case None
    then have "suffix t cs" using 2(4) 2(5) by (auto simp: suffix_Cons)
    then have "length (re_sub m cs) < length cs" using 2(1) [OF None] 2(3) 2(5) 2(6) by blast
    then show ?thesis using None by simp
  next
    case (Some kr)
    obtain k r where kr: "(k, r) = kr" by (cases kr) auto
    have ih: "length (re_sub m (drop (k - 1) cs)) \<le> length (drop (k - 1) cs)"
      using re_sub_length [of m] 2(3) by blast
    have "m (c # cs) = Some (k, r)" using Some kr by simp
    from 2(3) [OF this] have "length r < k" and "length r < length (c # cs)" by blast+
    then show ?thesis using ih Some kr [symmetric] by auto
  qed
qed

lemma re_search_Some_suffix:
  "re_search m s \<noteq> None \<Longrightarrow> \<exists>t. suffix t s \<and> m t \<noteq> None"
proof (induction s)
  case Nil
  then show ?case by simp
next
  case (Cons c cs)
  show ?case
  proof (cases "m (c # cs)")
    case None
    then have "re_search m cs \<noteq> None" using Cons.prems by simp
    then obtain t where "suffix t cs" and "m t \<noteq> None" using Cons.IH by blast
    then show ?thesis by (auto simp: suffix_Cons)
  next
    case (Some kr)
    then have "suffix (c # cs) (c # cs) \<and> m (c # cs) \<noteq> None" by simp
    then show ?thesis by blast
  qed
qed

lemma m_numbering_shrinks:
  "m_numbering t = Some (k, r) \<Longrightarrow> length r < k \<and> length r < length t"
  using m_numbering_Some [of t k r] by auto

lemma m_literal_eos_shrinks:
  "lit \<noteq> [] \<Longrightarrow> m_literal_eos lit t = Some (k, r) \<Longrightarrow> length r < k \<and> length r < length t"
  by (auto simp: m_literal_eos_def delete_def prefix_def split: if_splits)

lemma m_date_format_shrinks:
  "m_date_format t = Some (k, r) \<Longrightarrow> length r < k \<and> length r < length t"
  using m_date_format_Some [of t k r] by auto

lemma m_spaces_shrinks:
  "m_spaces t = Some (k, r) \<Longrightarrow> length r < k \<and> length r < length t"
  by (cases t) (auto simp: m_spaces_def delete_def Let_def split: if_splits)

lemma m_dot_shrinks:
  "m_dot t = Some (k, r) \<Longrightarrow> length r < k \<and> length r < length t"
  by (cases t) (auto simp: m_dot_def delete_def split: if_splits)

lemma m_underscores_eos_shrinks:
  "m_underscores_eos t = Some (k, r) \<Longrightarrow> length r < k \<and> length r < length t"
  by (cases t) (auto simp: m_underscores_eos_def delete_def Let_def split: if_splits)

lemma normalize_no_space: "\<forall>c\<in>set (normalize_filename x). \<not> is_space c"
proof -
  define n5 where "n5 = re_sub m_spaces (re_sub m_date_format (re_sub (m_literal_eos ''_p'')
    (re_sub (m_literal_eos ''-edited'') (re_sub m_numbering x))))"
  have a: "\<forall>c\<in>set n5. \<not> is_space c" unfolding n5_def by (rule re_sub_spaces_no_space)
  have b: "set (re_sub m_dot n5) \<subseteq> set n5" by (simp add: re_sub_dot_filter)
  have c: "set (re_sub m_underscores_eos (re_sub m_dot n5)) \<subseteq> set (re_sub m_dot n5)"
    by (rule re_sub_deleting_subset) (use m_underscores_eos_Some in blast)
  have "normalize_filename x = re_sub m_underscores_eos (re_sub m_dot n5)"
    by (simp add: normalize_filename_def n5_def)
  then show ?thesis using a b c by auto
qed

lemma normalize_no_dot: "CHR ''.'' \<notin> set (normalize_filename x)"
proof -
  define n5 where "n5 = re_sub m_spaces (re_sub m_date_format (re_sub (m_literal_eos ''_p'')
    (re_sub (m_literal_eos ''-edited'') (re_sub m_numbering x))))"
  have b: "CHR ''.'' \<notin> set (re_sub m_dot n5)" by (simp add: re_sub_dot_filter)
  have c: "set (re_sub m_underscores_eos (re_sub m_dot n5)) \<subseteq> set (re_sub m_dot n5)"
    by (rule re_sub_deleting_subset) (use m_underscores_eos_Some in blast)
  have "normalize_filename x = re_sub m_underscores_eos (re_sub m_dot n5)"
    by (simp add: normalize_filename_def n5_def)
  then show ?thesis using b c by auto
qed

lemma normalize_no_trailing_underscore:
  "normalize_filename x = [] \<or> last (normalize_filename x) \<noteq> CHR ''_''"
proof -
  define n5 where "n5 = re_sub m_spaces (re_sub m_date_format (re_sub (m_literal_eos ''_p'')
    (re_sub (m_literal_eos ''-edited'') (re_sub m_numbering x))))"
  have a: "\<forall>c\<in>set n5. \<not> is_space c" unfolding n5_def by (rule re_sub_spaces_no_space)
  have b: "set (re_sub m_dot n5) \<subseteq> set n5" by (simp add: re_sub_dot_filter)
  have "CHR 0x0A \<notin> set (re_sub m_dot n5)" using a b is_space_newline by blast
  then have "re_sub m_underscores_eos (re_sub m_dot n5) = []
      \<or> last (re_sub m_underscores_eos (re_sub m_dot n5)) \<noteq> CHR ''_''"
    by (rule underscores_last)
  moreover have "normalize_filename x = re_sub m_underscores_eos (re_sub m_dot n5)"
    by (simp add: normalize_filename_def n5_def)
  ultimately show ?thesis by simp
qed

lemma sub_numbering_id: "re_search m_numbering y = None \<Longrightarrow> re_sub m_numbering y = y"
proof (rule re_sub_no_match)
  fix t
  assume s: "re_search m_numbering y = None" and t: "suffix t y"
  show "m_numbering t = None"
  proof (cases "t = []")
    case True
    then show ?thesis by (simp add: m_numbering_def)
  next
    case False
    then show ?thesis using re_search_None_suffix [OF s t] by blast
  qed
qed

lemma sub_literal_id:
  assumes nl: "CHR 0x0A \<notin> set y" and ns: "\<not> suffix lit y"
  shows "re_sub (m_literal_eos lit) y = y"
proof (rule re_sub_no_match)
  fix t
  assume t: "suffix t y"
  show "m_literal_eos lit t = None"
  proof (rule ccontr)
    assume "m_literal_eos lit t \<noteq> None"
    then have p: "prefix lit t" and e: "at_eos (drop (length lit) t)"
      by (auto simp: m_literal_eos_def split: if_splits)
    have "set (drop (length lit) t) \<subseteq> set y"
      using t set_drop_subset [of "length lit" t] set_mono_suffix by blast
    then have "drop (length lit) t = []" using e nl at_eos_no_newline by blast
    then have "t = lit" using p by (auto simp: prefix_def)
    then show False using t ns by simp
  qed
qed

lemma sub_date_id:
  assumes "\<forall>c\<in>set y. \<not> is_space c"
  shows "re_sub m_date_format y = y"
proof (rule re_sub_no_match)
  fix t
  assume t: "suffix t y"
  show "m_date_format t = None"
  proof (rule ccontr)
    assume "m_date_format t \<noteq> None"
    then obtain k r where "m_date_format t = Some (k, r)" by auto
    then have "\<exists>c\<in>set t. is_space c" using m_date_format_Some by blast
    then show False using assms t set_mono_suffix by blast
  qed
qed

lemma sub_spaces_id:
  assumes "\<forall>c\<in>set y. \<not> is_space c"
  shows "re_sub m_spaces y = y"
proof (rule re_sub_no_match)
  fix t
  assume t: "suffix t y"
  show "m_spaces t = None"
  proof (rule ccontr)
    assume "m_spaces t \<noteq> None"
    then obtain k r where "m_spaces t = Some (k, r)" by auto
    then have "t \<noteq> [] \<and> is_space (hd t)" using m_spaces_Some by blast
    then have "\<exists>c\<in>set t. is_space c" using hd_in_set by blast
    then show False using assms t set_mono_suffix by blast
  qed
qed

lemma sub_dot_id: "CHR ''.'' \<notin> set y \<Longrightarrow> re_sub m_dot y = y"
  by (simp add: re_sub_dot_filter filter_id_conv) blast

lemma sub_underscores_id:
  assumes nl: "CHR 0x0A \<notin> set y" and l: "y = [] \<or> last y \<noteq> CHR ''_''"
  shows "re_sub m_underscores_eos y = y"
proof (rule re_sub_no_match)
  fix t
  assume t: "suffix t y"
  show "m_underscores_eos t = None"
  proof (rule ccontr)
    assume "m_underscores_eos t \<noteq> None"
    then obtain k r where "m_underscores_eos t = Some (k, r)" by auto
    from m_underscores_eos_Some [OF this]
    have k0: "0 < k" and k: "k = length (takeWhile (\<lambda>c. c = CHR ''_'') t)"
      and e: "at_eos (drop k t)" by blast+
    have "set (drop k t) \<subseteq> set y"
      using t set_drop_subset [of k t] set_mono_suffix by blast
    then have "drop k t = []" using e nl at_eos_no_newline by blast
    then have "length t \<le> length (takeWhile (\<lambda>c. c = CHR ''_'') t)" using k by simp
    then have tw: "takeWhile (\<lambda>c. c = CHR ''_'') t = t"
      by (metis length_takeWhile_le le_antisym takeWhile_eq_take take_all_iff)
    have ne: "t \<noteq> []" using k0 k by auto
    have "\<forall>c\<in>set t. c = CHR ''_''" using tw by (simp add: takeWhile_eq_all_conv)
    then have "last t = CHR ''_''" using ne last_in_set by blast
    moreover have "last y = last t \<and> y \<noteq> []" using t ne by (auto simp: suffix_def)
    ultimately show False using l by simp
  qed
qed

lemma normalize_length:
  "length (re_sub m_underscores_eos (re_sub m_dot (re_sub m_spaces (re_sub m_date_format s))))
     \<le> length s"
proof -
  have "length (re_sub m_date_format s) \<le> length s"
    by (rule re_sub_length) (rule m_date_format_shrinks)
  moreover have "length (re_sub m_spaces (re_sub m_date_format s))
      \<le> length (re_sub m_date_format s)"
    by (rule re_sub_length) (rule m_spaces_shrinks)
  moreover have "length (re_sub m_dot (re_sub m_spaces (re_sub m_date_format s)))
      \<le> length (re_sub m_spaces (re_sub m_date_format s))"
    by (rule re_sub_length) (rule m_dot_shrinks)
  moreover have "length (re_sub m_underscores_eos
        (re_sub m_dot (re_sub m_spaces (re_sub m_date_format s))))
      \<le> length (re_sub m_dot (re_sub m_spaces (re_sub m_date_format s)))"
    by (rule re_sub_length) (rule m_underscores_eos_shrinks)
  ultimately show ?thesis by linarith
qed

lemma literal_length:
  "lit \<noteq> [] \<Longrightarrow> length (re_sub (m_literal_eos lit) s) \<le> length s"
  by (rule re_sub_length) (rule m_literal_eos_shrinks)

lemma literal_length_strict:
  assumes "lit \<noteq> []" and "suffix lit s"
  shows "length (re_sub (m_literal_eos lit) s) < length s"
proof (rule re_sub_length_strict [where t = lit])
  show "m_literal_eos lit lit \<noteq> None" by (simp add: m_literal_eos_def at_eos_def delete_def)
  show "m_literal_eos lit [] = None" using assms(1) by (simp add: m_literal_eos_def)
  show "suffix lit s" by (rule assms(2))
  show "\<And>t k r. m_literal_eos lit t = Some (k, r) \<Longrightarrow> length r < k \<and> length r < length t"
    using assms(1) by (rule m_literal_eos_shrinks)
qed

lemma numbering_length_strict:
  assumes "re_search m_numbering s \<noteq> None"
  shows "length (re_sub m_numbering s) < length s"
proof -
  from re_search_Some_suffix [OF assms] obtain t where t: "suffix t s" "m_numbering t \<noteq> None"
    by blast
  show ?thesis
  proof (rule re_sub_length_strict [where t = t])
    show "m_numbering [] = None" by (simp add: m_numbering_def)
    show "\<And>t k r. m_numbering t = Some (k, r) \<Longrightarrow> length r < k \<and> length r < length t"
      by (rule m_numbering_shrinks)
  qed (use t in auto)
qed

text \<open>
Claim C2, amended: the normalizer is idempotent at \<open>x\<close> exactly when the normalized
  text holds no numbering group \<open>(n)\<close> and ends neither in \<open>-edited\<close> nor in \<open>_p\<close>.
  The last four substitutions never leave anything for a second run: the result holds no
  white space and no dot and does not end in an underscore. The first three do: removing
  a numbering group, a dot or white space can build a new numbering group, and removing a
  suffix can uncover the same suffix, or another one, before it.
\<close>

theorem normalize_idempotent_iff:
  "normalize_filename (normalize_filename x) = normalize_filename x \<longleftrightarrow>
     re_search m_numbering (normalize_filename x) = None
     \<and> \<not> suffix ''-edited'' (normalize_filename x)
     \<and> \<not> suffix ''_p'' (normalize_filename x)"
proof -
  define y where "y = normalize_filename x"
  have sp: "\<forall>c\<in>set y. \<not> is_space c" unfolding y_def by (rule normalize_no_space)
  have nl: "CHR 0x0A \<notin> set y" using sp is_space_newline by blast
  have dot: "CHR ''.'' \<notin> set y" unfolding y_def by (rule normalize_no_dot)
  have us: "y = [] \<or> last y \<noteq> CHR ''_''" unfolding y_def
    by (rule normalize_no_trailing_underscore)
  have tail: "re_sub m_underscores_eos (re_sub m_dot (re_sub m_spaces (re_sub m_date_format y)))
      = y"
    by (simp add: sub_date_id [OF sp] sub_spaces_id [OF sp] sub_dot_id [OF dot]
        sub_underscores_id [OF nl us])
  have n: "normalize_filename y = re_sub m_underscores_eos (re_sub m_dot (re_sub m_spaces
      (re_sub m_date_format (re_sub (m_literal_eos ''_p'')
        (re_sub (m_literal_eos ''-edited'') (re_sub m_numbering y))))))"
    by (simp add: normalize_filename_def)
  have le: "length (normalize_filename y)
      \<le> length (re_sub (m_literal_eos ''_p'')
           (re_sub (m_literal_eos ''-edited'') (re_sub m_numbering y)))"
    unfolding n by (rule normalize_length)
  have l1: "length (re_sub m_numbering y) \<le> length y"
    by (rule re_sub_length) (rule m_numbering_shrinks)
  have l2: "length (re_sub (m_literal_eos ''-edited'') s) \<le> length s" for s
    by (rule literal_length) simp
  have l3: "length (re_sub (m_literal_eos ''_p'') s) \<le> length s" for s
    by (rule literal_length) simp
  have "normalize_filename y = y \<longleftrightarrow>
     re_search m_numbering y = None \<and> \<not> suffix ''-edited'' y \<and> \<not> suffix ''_p'' y"
  proof
    assume "re_search m_numbering y = None \<and> \<not> suffix ''-edited'' y \<and> \<not> suffix ''_p'' y"
    then have "re_sub m_numbering y = y" and "re_sub (m_literal_eos ''-edited'') y = y"
      and "re_sub (m_literal_eos ''_p'') y = y"
      using sub_numbering_id sub_literal_id [OF nl] by blast+
    then show "normalize_filename y = y" using n tail by simp
  next
    assume eq: "normalize_filename y = y"
    have a: "re_search m_numbering y = None"
    proof (rule ccontr)
      assume "re_search m_numbering y \<noteq> None"
      then have "length (re_sub m_numbering y) < length y" by (rule numbering_length_strict)
      then have "length (normalize_filename y) < length y"
        using le l2 [of "re_sub m_numbering y"]
          l3 [of "re_sub (m_literal_eos ''-edited'') (re_sub m_numbering y)"] by linarith
      then show False using eq by simp
    qed
    then have s1: "re_sub m_numbering y = y" by (rule sub_numbering_id)
    have b: "\<not> suffix ''-edited'' y"
    proof
      assume "suffix ''-edited'' y"
      then have "length (re_sub (m_literal_eos ''-edited'') y) < length y"
        using literal_length_strict [of "''-edited''" y] by simp
      then have "length (normalize_filename y) < length y"
        using le s1 l3 [of "re_sub (m_literal_eos ''-edited'') y"] by simp
      then show False using eq by simp
    qed
    then have s2: "re_sub (m_literal_eos ''-edited'') y = y" using sub_literal_id [OF nl] by blast
    have c: "\<not> suffix ''_p'' y"
    proof
      assume "suffix ''_p'' y"
      then have "length (re_sub (m_literal_eos ''_p'') y) < length y"
        using literal_length_strict [of "''_p''" y] by simp
      then have "length (normalize_filename y) < length y"
        using le s1 s2 by simp
      then show False using eq by simp
    qed
    from a b c
    show "re_search m_numbering y = None \<and> \<not> suffix ''-edited'' y \<and> \<not> suffix ''_p'' y"
      by blast
  qed
  then show ?thesis unfolding y_def .
qed

text \<open>
The equivalence at the stem \<open>IMG(1)-edited\<close> and at a stem with a date: the
  normalized texts are clean, and normalizing them again changes nothing.
\<close>

theorem normalize_idempotent_iff_witness:
  "normalize_filename ''IMG(1)-edited'' = ''IMG''
   \<and> normalize_filename (normalize_filename ''IMG(1)-edited'') = normalize_filename ''IMG(1)-edited''
   \<and> normalize_filename (normalize_filename ''2020-01-02 03.04.05_p'')
       = normalize_filename ''2020-01-02 03.04.05_p''"
proof -
  have a: "normalize_filename ''IMG(1)-edited'' = ''IMG''" by code_simp
  have h1: "re_search m_numbering (normalize_filename ''IMG(1)-edited'') = None
     \<and> \<not> suffix ''-edited'' (normalize_filename ''IMG(1)-edited'')
     \<and> \<not> suffix ''_p'' (normalize_filename ''IMG(1)-edited'')"
    by code_simp
  have h2: "re_search m_numbering (normalize_filename ''2020-01-02 03.04.05_p'') = None
     \<and> \<not> suffix ''-edited'' (normalize_filename ''2020-01-02 03.04.05_p'')
     \<and> \<not> suffix ''_p'' (normalize_filename ''2020-01-02 03.04.05_p'')"
    by code_simp
  show ?thesis
    using a normalize_idempotent_iff [of "''IMG(1)-edited''"] h1
      normalize_idempotent_iff [of "''2020-01-02 03.04.05_p''"] h2 by blast
qed

text \<open>
Claim C2, as stated for every text: the normalizer is not idempotent. A second run
  removes the numbering group that the first one built from \<open>((1)2)\<close> or from
  \<open>img(1.0)\<close>, and the suffix that the first one uncovered in \<open>a-edited-edited\<close> or in
  \<open>a_p_p\<close>.
\<close>

theorem normalize_not_idempotent:
  "normalize_filename (normalize_filename ''((1)2)'') \<noteq> normalize_filename ''((1)2)''
   \<and> normalize_filename ''img(1.0)'' = ''img(10)''
   \<and> normalize_filename (normalize_filename ''img(1.0)'') = ''img''
   \<and> normalize_filename ''a-edited-edited'' = ''a-edited''
   \<and> normalize_filename (normalize_filename ''a-edited-edited'') = ''a''
   \<and> normalize_filename ''a_p_p'' = ''a_p''
   \<and> normalize_filename (normalize_filename ''a_p_p'') = ''a''"
  by code_simp

end
